theory Spec2Isabelle
  imports Main "HOL-Library.Sublist"
begin

section \<open>Python string primitives used by the client\<close>

text \<open>
  Python \<^verbatim>\<open>str\<close> values are modelled as HOL strings, one \<^typ>\<open>char\<close> per code point
  (code points below 256).  The functions of this section embed the built-in string
  operations that \<^verbatim>\<open>EmailNator.py\<close> calls.
\<close>

text \<open>\<^verbatim>\<open>s.split(sep)\<close> for a one-character separator: every occurrence splits,
  empty pieces are kept, and a string without the separator is returned as its only piece.\<close>

fun py_split :: "char \<Rightarrow> string \<Rightarrow> string list" where
  "py_split sep [] = [[]]"
| "py_split sep (c # cs) =
     (if c = sep then [] # py_split sep cs
      else (case py_split sep cs of [] \<Rightarrow> [[c]] | p # ps \<Rightarrow> (c # p) # ps))"

text \<open>\<^verbatim>\<open>s.startswith(p)\<close>.\<close>

fun startswith :: "string \<Rightarrow> string \<Rightarrow> bool" where
  "startswith [] s = True"
| "startswith (p # ps) [] = False"
| "startswith (p # ps) (c # cs) = (p = c \<and> startswith ps cs)"

text \<open>\<^verbatim>\<open>sub in s\<close>: the substring test.\<close>

fun py_in :: "string \<Rightarrow> string \<Rightarrow> bool" where
  "py_in sub [] = (sub = [])"
| "py_in sub (c # cs) = (startswith sub (c # cs) \<or> py_in sub cs)"

text \<open>\<^verbatim>\<open>s.split(sep, 1)\<close> for a non-empty separator: at most one split, at the leftmost
  occurrence of \<open>sep\<close>.\<close>

fun py_split1 :: "string \<Rightarrow> string \<Rightarrow> string list" where
  "py_split1 sep [] = [[]]"
| "py_split1 sep (c # cs) =
     (if startswith sep (c # cs) then [[], drop (length sep) (c # cs)]
      else (case py_split1 sep cs of [] \<Rightarrow> [[c]] | p # ps \<Rightarrow> (c # p) # ps))"

text \<open>\<^verbatim>\<open>str.isspace\<close> on one character, for the code points below 256: the ASCII
  controls 9 to 13 and 28 to 31, the space, and the code points 133 and 160.\<close>

definition isspace :: "char \<Rightarrow> bool" where
  "isspace c =
     (let n = (of_char c :: nat)
      in (9 \<le> n \<and> n \<le> 13) \<or> (28 \<le> n \<and> n \<le> 32) \<or> n = 133 \<or> n = 160)"

text \<open>\<^verbatim>\<open>s.strip()\<close>: leading and trailing whitespace removed.\<close>

definition py_strip :: "string \<Rightarrow> string" where
  "py_strip s = rev (dropWhile isspace (rev (dropWhile isspace s)))"

text \<open>\<^verbatim>\<open>s.lower()\<close> on the ASCII letters.\<close>

definition lower_char :: "char \<Rightarrow> char" where
  "lower_char c =
     (let n = (of_char c :: nat) in if 65 \<le> n \<and> n \<le> 90 then char_of (n + 32) else c)"

definition py_lower :: "string \<Rightarrow> string" where
  "py_lower s = map lower_char s"

section \<open>The address-quality heuristic\<close>

text \<open>
  \<^verbatim>\<open>_is_premium_email(email, num)\<close>: the whole argument is split on \<open>.\<close>, every
  piece is split on \<open>+\<close>, and the flattened pieces are counted.
\<close>

definition all_parts :: "string \<Rightarrow> string list" where
  "all_parts email = concat (map (py_split (CHR ''+'')) (py_split (CHR ''.'') email))"

definition is_premium_email :: "string \<Rightarrow> int \<Rightarrow> bool" where
  "is_premium_email email num = (int (length (all_parts email)) \<le> num + 1)"

text \<open>Following the spec's words, for comparison: the local part of an address (the text
  before the \<open>@\<close>) and the number of its \<open>.\<close>/\<open>+\<close>-delimited segments.\<close>

definition local_part :: "string \<Rightarrow> string" where
  "local_part a = takeWhile (\<lambda>c. c \<noteq> CHR ''@'') a"

definition local_part_segments :: "string \<Rightarrow> nat" where
  "local_part_segments a = length (all_parts (local_part a))"

text \<open>The number of separator characters of a string.\<close>

definition separators :: "string \<Rightarrow> nat" where
  "separators a = length (filter (\<lambda>c. c = CHR ''.'' \<or> c = CHR ''+'') a)"

section \<open>Values, exceptions and HTTP messages\<close>

text \<open>Decoded JSON, as \<^verbatim>\<open>response.json()\<close> returns it: \<open>JNull\<close> is Python's
  \<^verbatim>\<open>None\<close>, a \<open>JObj\<close> is a \<^verbatim>\<open>dict\<close> with string keys.  Numbers are integers; in
  every operation below a float behaves as an integer does.\<close>

datatype json =
    JNull
  | JBool bool
  | JNum int
  | JStr string
  | JArr "json list"
  | JObj "(string \<times> json) list"

text \<open>The exceptions that can be raised while a client method runs.  \<open>HTTPError st txt\<close>
  is \<^verbatim>\<open>requests.HTTPError\<close> with the status code of its response and \<open>txt = str(e)\<close>;
  \<open>ConnectionError\<close> stands for the transport's other exceptions, \<open>UnicodeEncodeError\<close>
  is what \<^verbatim>\<open>print\<close> raises on a standard output that cannot encode the text.  All of
  them derive from \<^verbatim>\<open>Exception\<close>.\<close>

datatype exn =
    HTTPError int string
  | ConnectionError string
  | ValueError
  | AttributeError
  | IndexError
  | KeyError string
  | TypeError
  | UnicodeEncodeError

text \<open>What the retry wrapper prints, by the line of \<^verbatim>\<open>error_handler\<close> that prints it and
  the exception formatted into the text: line 23 (a 419 was caught, the token is fetched
  again), line 26 (the network request failed) and line 29 (an error occurred).\<close>

datatype notice =
    Caught419 exn
  | RequestFailed exn
  | ErrorOccurred exn

datatype http_verb = GET | POST

record request =
  verb :: http_verb
  target :: string
  headers :: "(string \<times> string option) list"
  payload :: "json option"

record response =
  status_code :: int
  reason :: string
  url :: string
  body_text :: string
  body_json :: "json option"

text \<open>Truth value of a Python object, \<^verbatim>\<open>d.get(key, default)\<close> and \<^verbatim>\<open>d[key]\<close> on a dict.\<close>

fun truthy :: "json \<Rightarrow> bool" where
  "truthy JNull = False"
| "truthy (JBool b) = b"
| "truthy (JNum n) = (n \<noteq> 0)"
| "truthy (JStr s) = (s \<noteq> [])"
| "truthy (JArr xs) = (xs \<noteq> [])"
| "truthy (JObj d) = (d \<noteq> [])"

definition dict_get :: "(string \<times> 'v) list \<Rightarrow> string \<Rightarrow> 'v \<Rightarrow> 'v" where
  "dict_get d k dflt = (case map_of d k of None \<Rightarrow> dflt | Some v \<Rightarrow> v)"

definition dict_item :: "(string \<times> 'v) list \<Rightarrow> string \<Rightarrow> exn + 'v" where
  "dict_item d k = (case map_of d k of None \<Rightarrow> Inl (KeyError k) | Some v \<Rightarrow> Inr v)"

subsection \<open>The part of \<^verbatim>\<open>requests.Response\<close> the client relies on\<close>

text \<open>Decimal rendering of a status code, as an f-string prints it.\<close>

definition digit_char :: "nat \<Rightarrow> char" where
  "digit_char d = ''0123456789'' ! d"

fun show_nat :: "nat \<Rightarrow> string" where
  "show_nat n = (if n < 10 then [digit_char n] else show_nat (n div 10) @ [digit_char (n mod 10)])"

declare show_nat.simps [simp del]

text \<open>\<^verbatim>\<open>response.raise_for_status()\<close>: \<open>Some e\<close> when it raises.  The message is
  \<^verbatim>\<open>"<status> Client Error: <reason> for url: <url>"\<close> for a status from 400 to 499 and
  \<^verbatim>\<open>"<status> Server Error: <reason> for url: <url>"\<close> from 500 to 599.\<close>

definition raise_for_status :: "response \<Rightarrow> exn option" where
  "raise_for_status r =
     (if 400 \<le> status_code r \<and> status_code r < 500 then
        Some (HTTPError (status_code r)
          (show_nat (nat (status_code r)) @ '' Client Error: '' @ reason r @ '' for url: '' @ url r))
      else if 500 \<le> status_code r \<and> status_code r < 600 then
        Some (HTTPError (status_code r)
          (show_nat (nat (status_code r)) @ '' Server Error: '' @ reason r @ '' for url: '' @ url r))
      else None)"

text \<open>\<^verbatim>\<open>bool(response)\<close> is \<^verbatim>\<open>response.ok\<close>: true when \<^verbatim>\<open>raise_for_status\<close> does not raise.\<close>

definition response_ok :: "response \<Rightarrow> bool" where
  "response_ok r = (raise_for_status r = None)"

section \<open>External collaborators and the client object\<close>

text \<open>
  The HTTP transport, URL decoding, the HTML parser and the standard output are not part of
  the repository.  They are parameters of the model; the type \<open>'sess\<close> is the state of
  everything outside the client object:
  \<^item> \<open>session_send\<close> is \<^verbatim>\<open>self.session.get\<close>/\<^verbatim>\<open>self.session.post\<close>: it answers a
    request with a response or raises, and changes the session (cookie jar, server);
  \<^item> \<open>cookies_get_dict\<close> is \<^verbatim>\<open>self.session.cookies.get_dict()\<close>;
  \<^item> \<open>unquote\<close> is \<^verbatim>\<open>urllib.parse.unquote\<close>;
  \<^item> \<open>soup_find_id content i\<close> is \<^verbatim>\<open>BeautifulSoup(content, 'html.parser').find(id=i)\<close>,
    \<open>None\<close> when no element has that id;
  \<^item> \<open>find_all t name\<close> is \<^verbatim>\<open>t.find_all(name)\<close>;
  \<^item> \<open>next_sibling_strip t\<close> is \<^verbatim>\<open>t.next_sibling.strip()\<close>, which raises when \<open>t\<close> has
    no following sibling or the sibling is not text;
  \<^item> \<open>print_notice n w\<close> is \<^verbatim>\<open>print\<close> of the notice \<open>n\<close>: \<open>Some e\<close> when the call
    raises \<open>e\<close> (the texts are not ASCII, and an output stream can be closed).  The text
    written is not kept.
\<close>

record ('sess, 'tag) externals =
  session_send :: "request \<Rightarrow> 'sess \<Rightarrow> (exn + response) \<times> 'sess"
  cookies_get_dict :: "'sess \<Rightarrow> (string \<times> string) list"
  unquote :: "string \<Rightarrow> string"
  soup_find_id :: "string \<Rightarrow> string \<Rightarrow> 'tag option"
  find_all :: "'tag \<Rightarrow> string \<Rightarrow> 'tag list"
  next_sibling_strip :: "'tag \<Rightarrow> exn + string"
  print_notice :: "notice \<Rightarrow> 'sess \<Rightarrow> exn option"

text \<open>
  The fields of \<^verbatim>\<open>EmailNatorClient\<close>.  Two ghost fields record what the object has
  done: \<open>sent\<close> lists the requests handed to the transport, oldest first, and
  \<open>init_calls\<close> counts the calls of \<^verbatim>\<open>_initialize_session\<close>.  No code reads them.
\<close>

record 'sess client =
  base_url :: string
  session :: 'sess
  xsrf_token :: "string option"
  sent :: "request list"
  init_calls :: nat

definition USER_AGENT :: string where
  "USER_AGENT = ''Mozilla/5.0 (Windows NT 10.0; Win64; x64) AppleWebKit/537.36 (KHTML, like Gecko) Chrome/123.0.0.0 Safari/537.36''"

section \<open>The retry wrapper\<close>

text \<open>
  \<^verbatim>\<open>error_handler(max_retries)(func)\<close>, with \<^verbatim>\<open>print\<close>, the wrapped function \<open>func\<close>
  and \<^verbatim>\<open>self._initialize_session\<close> as parameters.  A result \<open>None\<close> of the outer option
  means that the call does not return; \<open>Inl e\<close> that it raises \<open>e\<close>; \<open>Inr None\<close> that
  it returns Python's \<^verbatim>\<open>None\<close>.  An exception raised inside an \<^verbatim>\<open>except\<close> clause, by
  \<^verbatim>\<open>print\<close> or by \<^verbatim>\<open>self._initialize_session()\<close>, is not caught by the wrapper.
\<close>

fun error_handler ::
  "nat \<Rightarrow> (notice \<Rightarrow> 's \<Rightarrow> exn option) \<Rightarrow> ('s \<Rightarrow> (exn + 'r) \<times> 's) \<Rightarrow>
   ('s \<Rightarrow> ((exn + unit) \<times> 's) option) \<Rightarrow> 's \<Rightarrow> ((exn + 'r option) \<times> 's) option" where
  "error_handler 0 py_print func init s = Some (Inr None, s)"
| "error_handler (Suc n) py_print func init s =
     (case func s of
        (Inr r, s1) \<Rightarrow> Some (Inr (Some r), s1)
      | (Inl (HTTPError st txt), s1) \<Rightarrow>
          (if py_in ''419'' txt then
             (case py_print (Caught419 (HTTPError st txt)) s1 of
                Some e \<Rightarrow> Some (Inl e, s1)
              | None \<Rightarrow>
                  (case init s1 of
                     None \<Rightarrow> None
                   | Some (Inl e, s2) \<Rightarrow> Some (Inl e, s2)
                   | Some (Inr u, s2) \<Rightarrow> error_handler n py_print func init s2))
           else
             (case py_print (RequestFailed (HTTPError st txt)) s1 of
                Some e \<Rightarrow> Some (Inl e, s1)
              | None \<Rightarrow> Some (Inr None, s1)))
      | (Inl e, s1) \<Rightarrow>
          (case py_print (ErrorOccurred e) s1 of
             Some e' \<Rightarrow> Some (Inl e', s1)
           | None \<Rightarrow> Some (Inr None, s1)))"

section \<open>The request executor and the session\<close>

definition update_xsrf_token ::
  "('sess, 'tag) externals \<Rightarrow> (string \<times> string) list \<Rightarrow> 'sess client \<Rightarrow> 'sess client" where
  "update_xsrf_token X cookies s =
     s\<lparr>xsrf_token := Some (unquote X (dict_get cookies ''XSRF-TOKEN'' []))\<rparr>"

text \<open>The headers and the request that the body of \<^verbatim>\<open>_make_request\<close> builds.\<close>

definition build_request :: "string \<Rightarrow> string \<Rightarrow> json option \<Rightarrow> string option \<Rightarrow> request" where
  "build_request method u data token =
     (let hdrs = [(''User-Agent'', Some USER_AGENT),
                  (''Accept-Encoding'', Some ''gzip, deflate''),
                  (''Accept-Language'', Some ''zh-CN,zh;q=0.9''),
                  (''X-Xsrf-Token'', token)]
      in if py_lower method = ''post'' then
           \<lparr>verb = POST, target = u,
            headers = hdrs @ [(''Content-Type'', Some ''application/json''),
                              (''Accept'', Some ''application/json, text/plain, */*''),
                              (''X-Requested-With'', Some ''XMLHttpRequest'')],
            payload = data\<rparr>
         else
           \<lparr>verb = GET, target = u,
            headers = hdrs @ [(''Accept'', Some ''text/html,application/xhtml+xml,application/xml;q=0.9,image/avif,image/webp,image/apng,*/*;q=0.8'')],
            payload = None\<rparr>)"

text \<open>The undecorated body of \<^verbatim>\<open>_make_request\<close>: one request, then
  \<^verbatim>\<open>raise_for_status\<close>, then the token refresh from the session's cookies.\<close>

definition make_request_body ::
  "('sess, 'tag) externals \<Rightarrow> string \<Rightarrow> string \<Rightarrow> json option \<Rightarrow> 'sess client \<Rightarrow>
   (exn + response) \<times> 'sess client" where
  "make_request_body X method u data s =
     (let req = build_request method u data (xsrf_token s)
      in case session_send X req (session s) of
           (Inl e, w) \<Rightarrow> (Inl e, s\<lparr>session := w, sent := sent s @ [req]\<rparr>)
         | (Inr r, w) \<Rightarrow>
             (let s1 = s\<lparr>session := w, sent := sent s @ [req]\<rparr>
              in case raise_for_status r of
                   Some e \<Rightarrow> (Inl e, s1)
                 | None \<Rightarrow> (Inr r, update_xsrf_token X (cookies_get_dict X w) s1)))"

text \<open>\<^verbatim>\<open>print\<close> as the client object sees it.\<close>

definition client_print ::
  "('sess, 'tag) externals \<Rightarrow> notice \<Rightarrow> 'sess client \<Rightarrow> exn option" where
  "client_print X n s = print_notice X n (session s)"

text \<open>
  \<^verbatim>\<open>_make_request\<close> is the body under \<^verbatim>\<open>error_handler(max_retries=3)\<close>, and
  \<^verbatim>\<open>_initialize_session\<close> calls \<^verbatim>\<open>_make_request\<close> again, catching every exception.  The
  recursion need not end (a server that answers every request with a 419), so both take a
  bound \<open>k\<close> on the nesting of calls and return \<open>None\<close> when it does not suffice.
\<close>

fun make_request ::
  "('sess, 'tag) externals \<Rightarrow> nat \<Rightarrow> string \<Rightarrow> string \<Rightarrow> json option \<Rightarrow> 'sess client \<Rightarrow>
   ((exn + response option) \<times> 'sess client) option"
and initialize_session ::
  "('sess, 'tag) externals \<Rightarrow> nat \<Rightarrow> 'sess client \<Rightarrow> ((exn + unit) \<times> 'sess client) option" where
  "make_request X 0 method u data s = None"
| "make_request X (Suc k) method u data s =
     error_handler 3 (client_print X) (make_request_body X method u data)
       (\<lambda>s'. initialize_session X k s') s"
| "initialize_session X k s =
     (case make_request X k ''get'' (base_url s) None (s\<lparr>init_calls := Suc (init_calls s)\<rparr>) of
        None \<Rightarrow> None
      | Some (out, s') \<Rightarrow> Some (Inr (), s'))"

text \<open>\<^verbatim>\<open>EmailNatorClient()\<close> over a fresh session \<open>w\<close>.\<close>

definition new_client ::
  "('sess, 'tag) externals \<Rightarrow> nat \<Rightarrow> 'sess \<Rightarrow> ((exn + unit) \<times> 'sess client) option" where
  "new_client X k w =
     initialize_session X k
       \<lparr>base_url = ''https://www.emailnator.com'', session = w, xsrf_token = None,
        sent = [], init_calls = 0\<rparr>"

section \<open>The mailbox controller\<close>

subsection \<open>Generating addresses\<close>

text \<open>\<^verbatim>\<open>v[0]\<close> on a decoded JSON value.\<close>

fun subscript0 :: "json \<Rightarrow> exn + json" where
  "subscript0 (JArr []) = Inl IndexError"
| "subscript0 (JArr (x # xs)) = Inr x"
| "subscript0 (JStr []) = Inl IndexError"
| "subscript0 (JStr (c # cs)) = Inr (JStr [c])"
| "subscript0 (JObj d) = Inl (KeyError ''0'')"
| "subscript0 v = Inl TypeError"

text \<open>\<^verbatim>\<open>response.json().get("email", [None])[0]\<close>.\<close>

definition first_email :: "response \<Rightarrow> exn + json" where
  "first_email r =
     (case body_json r of
        None \<Rightarrow> Inl ValueError
      | Some (JObj d) \<Rightarrow> subscript0 (dict_get d ''email'' (JArr [JNull]))
      | Some v \<Rightarrow> Inl AttributeError)"

definition generate_email ::
  "('sess, 'tag) externals \<Rightarrow> nat \<Rightarrow> string list \<Rightarrow> 'sess client \<Rightarrow>
   ((exn + json) \<times> 'sess client) option" where
  "generate_email X k email_types s =
     (case make_request X k ''post'' (base_url s @ ''/generate-email'')
             (Some (JObj [(''email'', JArr (map JStr email_types))])) s of
        None \<Rightarrow> None
      | Some (Inl e, s') \<Rightarrow> Some (Inl e, s')
      | Some (Inr None, s') \<Rightarrow> Some (Inr JNull, s')
      | Some (Inr (Some r), s') \<Rightarrow>
          (if response_ok r then
             (case first_email r of Inl e \<Rightarrow> Some (Inl e, s') | Inr v \<Rightarrow> Some (Inr v, s'))
           else Some (Inr JNull, s')))"

text \<open>The loop of \<^verbatim>\<open>generate_premium_email\<close> over \<^verbatim>\<open>range(1, max_attempts + 1)\<close>, by
  the number of iterations left.  \<^verbatim>\<open>_is_premium_email\<close> raises on a true value that is
  not a string (it has no \<^verbatim>\<open>split\<close>).\<close>

fun premium_loop ::
  "('sess, 'tag) externals \<Rightarrow> nat \<Rightarrow> nat \<Rightarrow> int \<Rightarrow> string list \<Rightarrow> 'sess client \<Rightarrow>
   ((exn + json) \<times> 'sess client) option" where
  "premium_loop X k 0 num email_type s = Some (Inr JNull, s)"
| "premium_loop X k (Suc n) num email_type s =
     (case generate_email X k email_type s of
        None \<Rightarrow> None
      | Some (Inl e, s') \<Rightarrow> Some (Inl e, s')
      | Some (Inr email, s') \<Rightarrow>
          (if truthy email then
             (case email of
                JStr a \<Rightarrow>
                  (if is_premium_email a num then Some (Inr email, s')
                   else premium_loop X k n num email_type s')
              | v \<Rightarrow> Some (Inl AttributeError, s'))
           else premium_loop X k n num email_type s'))"

definition generate_premium_email ::
  "('sess, 'tag) externals \<Rightarrow> nat \<Rightarrow> int \<Rightarrow> int \<Rightarrow> string list \<Rightarrow> 'sess client \<Rightarrow>
   ((exn + json) \<times> 'sess client) option" where
  "generate_premium_email X k max_attempts num email_type s =
     premium_loop X k (nat max_attempts) num email_type s"

subsection \<open>Listing messages\<close>

text \<open>\<^verbatim>\<open>msg["from"]\<close> and \<^verbatim>\<open>"@" in v\<close> on decoded JSON values.\<close>

fun item_from :: "json \<Rightarrow> exn + json" where
  "item_from (JObj d) = dict_item d ''from''"
| "item_from v = Inl TypeError"

fun contains_at :: "json \<Rightarrow> exn + bool" where
  "contains_at (JStr s) = Inr (py_in ''@'' s)"
| "contains_at (JArr xs) = Inr (JStr ''@'' \<in> set xs)"
| "contains_at (JObj d) = Inr (''@'' \<in> fst ` set d)"
| "contains_at v = Inl TypeError"

text \<open>The values a \<^verbatim>\<open>for\<close> iterates over.\<close>

fun iterate :: "json \<Rightarrow> exn + json list" where
  "iterate (JArr xs) = Inr xs"
| "iterate (JStr s) = Inr (map (\<lambda>c. JStr [c]) s)"
| "iterate (JObj d) = Inr (map (\<lambda>kv. JStr (fst kv)) d)"
| "iterate v = Inl TypeError"

text \<open>The list comprehension \<^verbatim>\<open>[msg for msg in ... if "@" in msg["from"]]\<close>; it raises at
  the first entry whose test raises.\<close>

fun filter_messages :: "json list \<Rightarrow> exn + json list" where
  "filter_messages [] = Inr []"
| "filter_messages (msg # rest) =
     (case item_from msg of
        Inl e \<Rightarrow> Inl e
      | Inr v \<Rightarrow>
          (case contains_at v of
             Inl e \<Rightarrow> Inl e
           | Inr b \<Rightarrow>
               (case filter_messages rest of
                  Inl e \<Rightarrow> Inl e
                | Inr ms \<Rightarrow> Inr (if b then msg # ms else ms))))"

definition message_data :: "response \<Rightarrow> exn + json list" where
  "message_data r =
     (case body_json r of
        None \<Rightarrow> Inl ValueError
      | Some (JObj d) \<Rightarrow>
          (case iterate (dict_get d ''messageData'' (JArr [])) of
             Inl e \<Rightarrow> Inl e
           | Inr msgs \<Rightarrow> filter_messages msgs)
      | Some v \<Rightarrow> Inl AttributeError)"

definition get_message_list ::
  "('sess, 'tag) externals \<Rightarrow> nat \<Rightarrow> string \<Rightarrow> 'sess client \<Rightarrow>
   ((exn + json list) \<times> 'sess client) option" where
  "get_message_list X k email s =
     (case make_request X k ''post'' (base_url s @ ''/message-list'')
             (Some (JObj [(''email'', JStr email)])) s of
        None \<Rightarrow> None
      | Some (Inl e, s') \<Rightarrow> Some (Inl e, s')
      | Some (Inr None, s') \<Rightarrow> Some (Inr [], s')
      | Some (Inr (Some r), s') \<Rightarrow>
          (if response_ok r then
             (case message_data r of Inl e \<Rightarrow> Some (Inl e, s') | Inr ms \<Rightarrow> Some (Inr ms, s'))
           else Some (Inr [], s')))"

subsection \<open>Detecting a new message\<close>

text \<open>\<^verbatim>\<open>msg.get('time', '')\<close> and \<^verbatim>\<open>msg['subject']\<close> (read by the log line).\<close>

fun get_time :: "json \<Rightarrow> exn + json" where
  "get_time (JObj d) = Inr (dict_get d ''time'' (JStr []))"
| "get_time v = Inl AttributeError"

fun item_subject :: "json \<Rightarrow> exn + json" where
  "item_subject (JObj d) = dict_item d ''subject''"
| "item_subject v = Inl TypeError"

text \<open>\<^verbatim>\<open>if callback is not None: callback(v)\<close> followed by \<^verbatim>\<open>return v\<close>.  A callback is
  any code run on the client: it may change the client, raise, or not return.\<close>

definition notify ::
  "(json \<Rightarrow> 's \<Rightarrow> ((exn + unit) \<times> 's) option) option \<Rightarrow> json \<Rightarrow> 's \<Rightarrow>
   ((exn + json) \<times> 's) option" where
  "notify callback v s =
     (case callback of
        None \<Rightarrow> Some (Inr v, s)
      | Some f \<Rightarrow>
          (case f v s of
             None \<Rightarrow> None
           | Some (Inl e, s') \<Rightarrow> Some (Inl e, s')
           | Some (Inr u, s') \<Rightarrow> Some (Inr v, s')))"

text \<open>The \<^verbatim>\<open>for msg in message_list\<close> loop of \<^verbatim>\<open>get_new_message\<close> and what follows it.\<close>

fun scan_messages ::
  "(json \<Rightarrow> 's \<Rightarrow> ((exn + unit) \<times> 's) option) option \<Rightarrow> json list \<Rightarrow> 's \<Rightarrow>
   ((exn + json) \<times> 's) option" where
  "scan_messages callback [] s = notify callback (JObj []) s"
| "scan_messages callback (msg # rest) s =
     (case get_time msg of
        Inl e \<Rightarrow> Some (Inl e, s)
      | Inr t \<Rightarrow>
          (if t = JStr ''Just Now'' then
             (case item_subject msg of
                Inl e \<Rightarrow> Some (Inl e, s)
              | Inr subject \<Rightarrow> notify callback msg s)
           else scan_messages callback rest s))"

definition get_new_message ::
  "('sess, 'tag) externals \<Rightarrow> nat \<Rightarrow> string \<Rightarrow>
   (json \<Rightarrow> 'sess client \<Rightarrow> ((exn + unit) \<times> 'sess client) option) option \<Rightarrow> 'sess client \<Rightarrow>
   ((exn + json) \<times> 'sess client) option" where
  "get_new_message X k email callback s =
     (case get_message_list X k email s of
        None \<Rightarrow> None
      | Some (Inl e, s') \<Rightarrow> Some (Inl e, s')
      | Some (Inr message_list, s') \<Rightarrow> scan_messages callback message_list s')"

subsection \<open>Fetching and parsing a message\<close>

text \<open>\<^verbatim>\<open>xs[i]\<close> on a list.\<close>

definition list_item :: "'a list \<Rightarrow> nat \<Rightarrow> exn + 'a" where
  "list_item xs i = (if i < length xs then Inr (xs ! i) else Inl IndexError)"

definition divider :: string where
  "divider = ''<hr /></div></div>''"

text \<open>The \<^verbatim>\<open>"body"\<close> entry of \<^verbatim>\<open>_parse_email_content\<close>.\<close>

definition body_of :: "string \<Rightarrow> string" where
  "body_of content =
     (if py_in divider content then py_strip (last (py_split1 divider content)) else [])"

text \<open>\<^verbatim>\<open>header.find_all('b')[i].next_sibling.strip()\<close>; a missing header is Python's
  \<^verbatim>\<open>None\<close>, which has no \<^verbatim>\<open>find_all\<close>.\<close>

definition label_value :: "('sess, 'tag) externals \<Rightarrow> 'tag option \<Rightarrow> nat \<Rightarrow> exn + string" where
  "label_value X header i =
     (case header of
        None \<Rightarrow> Inl AttributeError
      | Some h \<Rightarrow>
          (case list_item (find_all X h ''b'') i of
             Inl e \<Rightarrow> Inl e
           | Inr b \<Rightarrow> next_sibling_strip X b))"

text \<open>\<^verbatim>\<open>_parse_email_content\<close>: the dict entries are evaluated in the order written.\<close>

definition parse_email_content ::
  "('sess, 'tag) externals \<Rightarrow> string \<Rightarrow> exn + (string \<times> string) list" where
  "parse_email_content X content =
     (let header = soup_find_id X content ''subject-header''
      in case label_value X header 0 of
           Inl e \<Rightarrow> Inl e
         | Inr from \<Rightarrow>
             (case label_value X header 1 of
                Inl e \<Rightarrow> Inl e
              | Inr subject \<Rightarrow>
                  (case label_value X header 2 of
                     Inl e \<Rightarrow> Inl e
                   | Inr time \<Rightarrow>
                       Inr [(''from'', from), (''subject'', subject), (''time'', time),
                            (''body'', body_of content)])))"

definition get_email_content ::
  "('sess, 'tag) externals \<Rightarrow> nat \<Rightarrow> string \<Rightarrow> string \<Rightarrow> 'sess client \<Rightarrow>
   ((exn + (string \<times> string) list) \<times> 'sess client) option" where
  "get_email_content X k email message_id s =
     (case make_request X k ''post'' (base_url s @ ''/message-list'')
             (Some (JObj [(''email'', JStr email), (''messageID'', JStr message_id)])) s of
        None \<Rightarrow> None
      | Some (Inl e, s') \<Rightarrow> Some (Inl e, s')
      | Some (Inr None, s') \<Rightarrow> Some (Inr [], s')
      | Some (Inr (Some r), s') \<Rightarrow>
          (if response_ok r then
             (case parse_email_content X (body_text r) of
                Inl e \<Rightarrow> Some (Inl e, s')
              | Inr details \<Rightarrow> Some (Inr details, s'))
           else Some (Inr [], s')))"

section \<open>Instrumentation and notions used in the statements\<close>

text \<open>\<open>occurs sub s\<close>: the text \<open>sub\<close> occurs somewhere in \<open>s\<close>.\<close>

definition occurs :: "string \<Rightarrow> string \<Rightarrow> bool" where
  "occurs sub s = (\<exists>pre post. s = pre @ sub @ post)"

text \<open>\<open>counting func\<close> runs \<open>func\<close> on a state paired with a counter of its calls;
  \<open>uncounted init\<close> and \<open>uncounted_print py_print\<close> run \<open>init\<close> and \<open>py_print\<close> and
  leave the counter alone.\<close>

definition counting :: "('s \<Rightarrow> (exn + 'r) \<times> 's) \<Rightarrow> nat \<times> 's \<Rightarrow> (exn + 'r) \<times> (nat \<times> 's)" where
  "counting func cs = (case func (snd cs) of (out, s') \<Rightarrow> (out, (Suc (fst cs), s')))"

definition uncounted ::
  "('s \<Rightarrow> ((exn + unit) \<times> 's) option) \<Rightarrow> nat \<times> 's \<Rightarrow> ((exn + unit) \<times> (nat \<times> 's)) option" where
  "uncounted init cs =
     (case init (snd cs) of None \<Rightarrow> None | Some (out, s') \<Rightarrow> Some (out, (fst cs, s')))"

definition uncounted_print :: "(notice \<Rightarrow> 's \<Rightarrow> exn option) \<Rightarrow> notice \<Rightarrow> nat \<times> 's \<Rightarrow> exn option" where
  "uncounted_print py_print n cs = py_print n (snd cs)"

text \<open>\<^verbatim>\<open>_make_request\<close> run on a state paired with a counter, started at 0, of the
  attempts that this call makes of its own request.\<close>

definition make_request_counted ::
  "('sess, 'tag) externals \<Rightarrow> nat \<Rightarrow> string \<Rightarrow> string \<Rightarrow> json option \<Rightarrow> 'sess client \<Rightarrow>
   ((exn + response option) \<times> nat \<times> 'sess client) option" where
  "make_request_counted X k method u data s =
     (case k of
        0 \<Rightarrow> None
      | Suc j \<Rightarrow>
          error_handler 3 (uncounted_print (client_print X))
            (counting (make_request_body X method u data))
            (uncounted (initialize_session X j)) (0, s))"

text \<open>The exceptions after which the wrapper re-initializes the session and retries, and
  the notice that the wrapper prints for an exception.\<close>

fun retried :: "exn \<Rightarrow> bool" where
  "retried (HTTPError st txt) = py_in ''419'' txt"
| "retried e = False"

fun notice_of :: "exn \<Rightarrow> notice" where
  "notice_of (HTTPError st txt) =
     (if py_in ''419'' txt then Caught419 (HTTPError st txt) else RequestFailed (HTTPError st txt))"
| "notice_of e = ErrorOccurred e"

text \<open>\<open>trimmed s t\<close>: \<open>t\<close> is \<open>s\<close> without its leading and trailing whitespace.\<close>

definition trimmed :: "string \<Rightarrow> string \<Rightarrow> bool" where
  "trimmed s t =
     (\<exists>l r. s = l @ t @ r \<and> list_all isspace l \<and> list_all isspace r \<and>
        (t = [] \<or> (\<not> isspace (hd t) \<and> \<not> isspace (last t))))"

text \<open>Shapes of a listed entry, in the words of the statements: the entry is a dict
  whose field \<open>k\<close> is a string; it is a dict with a field \<open>k\<close>; its \<open>from\<close> field is
  a string that contains the character \<open>@\<close>; its \<open>time\<close> field equals the literal
  string \<open>Just Now\<close>.\<close>

definition has_string_field :: "string \<Rightarrow> json \<Rightarrow> bool" where
  "has_string_field k m =
     (case m of
        JObj d \<Rightarrow> (case map_of d k of Some (JStr v) \<Rightarrow> True | _ \<Rightarrow> False)
      | _ \<Rightarrow> False)"

definition has_field :: "string \<Rightarrow> json \<Rightarrow> bool" where
  "has_field k m = (case m of JObj d \<Rightarrow> map_of d k \<noteq> None | _ \<Rightarrow> False)"

definition from_has_at :: "json \<Rightarrow> bool" where
  "from_has_at m =
     (case m of
        JObj d \<Rightarrow> (case map_of d ''from'' of Some (JStr sender) \<Rightarrow> CHR ''@'' \<in> set sender | _ \<Rightarrow> False)
      | _ \<Rightarrow> False)"

definition time_is_just_now :: "json \<Rightarrow> bool" where
  "time_is_just_now m =
     (case m of JObj d \<Rightarrow> map_of d ''time'' = Some (JStr ''Just Now'') | _ \<Rightarrow> False)"

section \<open>Example worlds\<close>

text \<open>Concrete collaborators on which the statements are instantiated.  \<open>answer\<close> is a
  response without a JSON body, \<open>answer_json\<close> a successful JSON response.\<close>

definition answer :: "int \<Rightarrow> string \<Rightarrow> string \<Rightarrow> response" where
  "answer st why body =
     \<lparr>status_code = st, reason = why, url = ''https://www.emailnator.com/message-list'',
      body_text = body, body_json = None\<rparr>"

definition answer_json :: "json \<Rightarrow> response" where
  "answer_json j =
     \<lparr>status_code = 200, reason = ''OK'', url = ''https://www.emailnator.com/message-list'',
      body_text = [], body_json = Some j\<rparr>"

text \<open>Three message pages: a full one, one whose header holds two labels only, and one
  without the divider.  In each the header is closed by the first \<^verbatim>\<open></div>\<close>.\<close>

definition page_full :: string where
  "page_full = ''<div id=subject-header><b>From: </b>sender@example.org<br/><b>Subject: </b>Greetings<br/><b>Time: </b>Just Now<hr /></div></div> Hello ''"

definition page_two_labels :: string where
  "page_two_labels = ''<div id=subject-header><b>From: </b>sender@example.org<br/><b>Subject: </b>Greetings</div>''"

definition page_no_divider :: string where
  "page_no_divider = ''<div id=subject-header><b>From: </b>sender@example.org<br/><b>Subject: </b>Greetings<br/><b>Time: </b>Just Now</div>''"

text \<open>What the HTML parser answers on these pages; it is asked about no other page that
  has a header.  Tag 0 is the header of \<open>page_full\<close> with the labels 1, 2 and 3, tag 10 the
  header of \<open>page_two_labels\<close> with the labels 11 and 12, tag 20 the header of
  \<open>page_no_divider\<close> with the labels 21, 22 and 23.\<close>

definition known_find_id :: "string \<Rightarrow> string \<Rightarrow> nat option" where
  "known_find_id content i =
     (if i = ''subject-header'' then
        (if content = page_full then Some 0
         else if content = page_two_labels then Some 10
         else if content = page_no_divider then Some 20
         else None)
      else None)"

definition known_find_all :: "nat \<Rightarrow> string \<Rightarrow> nat list" where
  "known_find_all t name =
     (if name = ''b'' then
        (if t = 0 then [1, 2, 3]
         else if t = 10 then [11, 12]
         else if t = 20 then [21, 22, 23]
         else [])
      else [])"

definition known_next_sibling_strip :: "nat \<Rightarrow> exn + string" where
  "known_next_sibling_strip t =
     (if t = 1 \<or> t = 11 \<or> t = 21 then Inr ''sender@example.org''
      else if t = 2 \<or> t = 12 \<or> t = 22 then Inr ''Greetings''
      else if t = 3 \<or> t = 23 then Inr ''Just Now''
      else Inl AttributeError)"

text \<open>A transport that plays a script: each request is answered with the next outcome of
  the list, and a request past its end finds the connection refused.  Its standard output
  takes every notice.\<close>

definition scripted_send ::
  "request \<Rightarrow> (exn + response) list \<Rightarrow> (exn + response) \<times> (exn + response) list" where
  "scripted_send req script =
     (case script of
        [] \<Rightarrow> (Inl (ConnectionError ''refused''), [])
      | out # rest \<Rightarrow> (out, rest))"

definition scripted :: "((exn + response) list, nat) externals" where
  "scripted =
     \<lparr>session_send = scripted_send,
      cookies_get_dict = (\<lambda>script. [(''XSRF-TOKEN'', ''token'')]),
      unquote = (\<lambda>v. v),
      soup_find_id = known_find_id,
      find_all = known_find_all,
      next_sibling_strip = known_next_sibling_strip,
      print_notice = (\<lambda>n script. None)\<rparr>"

text \<open>A transport whose server answers every GET with 200 and every POST with 500; the
  session counts the requests.  \<open>steady\<close> has a standard output that takes every notice,
  \<open>steady_ascii\<close> one that cannot encode the texts of the notices, none of which is ASCII.\<close>

definition steady_send :: "request \<Rightarrow> nat \<Rightarrow> (exn + response) \<times> nat" where
  "steady_send req n =
     (if verb req = GET then (Inr (answer 200 ''OK'' []), Suc n)
      else (Inr (answer 500 ''Internal Server Error'' []), Suc n))"

definition steady :: "(nat, nat) externals" where
  "steady =
     \<lparr>session_send = steady_send,
      cookies_get_dict = (\<lambda>n. []),
      unquote = (\<lambda>v. v),
      soup_find_id = known_find_id,
      find_all = known_find_all,
      next_sibling_strip = known_next_sibling_strip,
      print_notice = (\<lambda>n w. None)\<rparr>"

definition steady_ascii :: "(nat, nat) externals" where
  "steady_ascii = steady\<lparr>print_notice := (\<lambda>n w. Some UnicodeEncodeError)\<rparr>"

text \<open>A transport whose server answers every request with 419.\<close>

definition expired_send :: "request \<Rightarrow> nat \<Rightarrow> (exn + response) \<times> nat" where
  "expired_send req n = (Inr (answer 419 ''unknown status'' []), Suc n)"

definition expired :: "(nat, nat) externals" where
  "expired = steady\<lparr>session_send := expired_send\<rparr>"

text \<open>A listing of three message summaries; the second has a placeholder sender.\<close>

definition summary :: "string \<Rightarrow> string \<Rightarrow> string \<Rightarrow> string \<Rightarrow> json" where
  "summary i sender subject time =
     JObj [(''messageID'', JStr i), (''from'', JStr sender), (''subject'', JStr subject),
           (''time'', JStr time)]"

definition inbox :: "json list" where
  "inbox =
     [summary ''MQ=='' ''Ann <ann@example.org>'' ''Hi'' ''5 min ago'',
      summary ''Mg=='' ''AI TOOLS'' ''Offer'' ''Just Now'',
      summary ''Mw=='' ''Bob <bob@example.org>'' ''Re: Hi'' ''Just Now'']"

definition inbox_response :: response where
  "inbox_response = answer_json (JObj [(''messageData'', JArr inbox)])"

text \<open>A callback that makes the client forget its token.\<close>

definition forget :: "json \<Rightarrow> 'sess client \<Rightarrow> ((exn + unit) \<times> 'sess client) option" where
  "forget msg c = Some (Inr (), c\<lparr>xsrf_token := None\<rparr>)"

text \<open>A client object that has sent nothing yet, and what one observes of a call: its
  outcome, the number of \<^verbatim>\<open>_initialize_session\<close> calls and the verbs of the requests sent.\<close>

definition client_on :: "'sess \<Rightarrow> 'sess client" where
  "client_on w =
     \<lparr>base_url = ''https://www.emailnator.com'', session = w, xsrf_token = None,
      sent = [], init_calls = 0\<rparr>"

definition observe ::
  "((exn + 'a) \<times> 'sess client) option \<Rightarrow> ((exn + 'a) \<times> nat \<times> http_verb list) option" where
  "observe res =
     (case res of
        None \<Rightarrow> None
      | Some (out, s) \<Rightarrow> Some (out, init_calls s, map verb (sent s)))"

section \<open>Proofs: the address-quality heuristic\<close>

lemma length_py_split: "length (py_split sep s) = Suc (length (filter (\<lambda>c. c = sep) s))"
  by (induction s) (auto split: list.splits)

lemma concat_py_split: "concat (py_split sep s) = filter (\<lambda>c. c \<noteq> sep) s"
  by (induction s) (auto split: list.splits)

lemma length_concat_map_py_split:
  "length (concat (map (py_split sep) xs)) =
   length xs + length (filter (\<lambda>c. c = sep) (concat xs))"
  by (induction xs) (auto simp: length_py_split)

lemma length_filter_separators:
  "length (filter (\<lambda>c. c = CHR ''.'') a) +
   length (filter (\<lambda>c. c = CHR ''+'') (filter (\<lambda>c. c \<noteq> CHR ''.'') a)) = separators a"
  by (induction a) (auto simp: separators_def)

lemma length_all_parts: "length (all_parts a) = Suc (separators a)"
  using length_filter_separators [of a]
  by (simp add: all_parts_def length_concat_map_py_split length_py_split concat_py_split)

text \<open>
  Claim C1, as amended.  \<^verbatim>\<open>_is_premium_email(a, n)\<close> counts the segments of the whole
  argument, domain included: their number is one more than the number of \<open>.\<close> and \<open>+\<close>
  characters of \<open>a\<close>, so the result is true exactly when \<open>a\<close> holds at most \<open>n\<close> of
  these characters.  \<^verbatim>\<open>_is_premium_email("a.b+c@gmail.com", 2)\<close> is false (four segments),
  \<^verbatim>\<open>_is_premium_email("a.b@gmail.com", 2)\<close> is true and
  \<^verbatim>\<open>_is_premium_email("a.b.c+d@gmail.com", 2)\<close> is false.
\<close>

theorem is_premium_email_counts_whole_address:
  "length (all_parts a) = Suc (separators a)
   \<and> (is_premium_email a n \<longleftrightarrow> int (separators a) \<le> n)
   \<and> \<not> is_premium_email ''a.b+c@gmail.com'' 2
   \<and> is_premium_email ''a.b@gmail.com'' 2
   \<and> \<not> is_premium_email ''a.b.c+d@gmail.com'' 2"
proof -
  have iff: "is_premium_email a n \<longleftrightarrow> int (separators a) \<le> n" for a n
    by (simp add: is_premium_email_def length_all_parts)
  have "separators ''a.b+c@gmail.com'' = 3" "separators ''a.b@gmail.com'' = 2"
    "separators ''a.b.c+d@gmail.com'' = 4"
    by (simp_all add: separators_def)
  then show ?thesis
    by (simp add: iff length_all_parts)
qed

text \<open>
  Claim C1 as stated fails: the local part of \<^verbatim>\<open>a.b+c@gmail.com\<close> has three segments,
  which is at most \<open>2 + 1\<close>, and the function returns false.
\<close>

theorem is_premium_email_local_part_counterexample:
  "\<not> (is_premium_email ''a.b+c@gmail.com'' 2 \<longleftrightarrow>
       int (local_part_segments ''a.b+c@gmail.com'') \<le> 2 + 1)"
  by (simp add: is_premium_email_def local_part_segments_def local_part_def all_parts_def)

section \<open>Proofs: the substring test\<close>

lemma startswith_iff: "startswith p s \<longleftrightarrow> (\<exists>post. s = p @ post)"
  by (induction p s rule: startswith.induct) auto

lemma startswith_prefix: "startswith p s \<longleftrightarrow> prefix p s"
  by (simp add: startswith_iff prefix_def)

lemma py_in_iff_occurs: "py_in sub s \<longleftrightarrow> occurs sub s"
proof (induction s)
  case Nil
  show ?case by (auto simp: occurs_def)
next
  case (Cons c cs)
  show ?case
  proof
    assume "py_in sub (c # cs)"
    then consider "startswith sub (c # cs)" | "occurs sub cs"
      using Cons.IH by auto
    then show "occurs sub (c # cs)"
    proof cases
      case 1
      then obtain post where "c # cs = sub @ post" by (auto simp: startswith_iff)
      then have "c # cs = [] @ sub @ post" by simp
      then show ?thesis unfolding occurs_def by blast
    next
      case 2
      then obtain pre post where "cs = pre @ sub @ post" by (auto simp: occurs_def)
      then have "c # cs = (c # pre) @ sub @ post" by simp
      then show ?thesis unfolding occurs_def by blast
    qed
  next
    assume "occurs sub (c # cs)"
    then obtain pre post where eq: "c # cs = pre @ sub @ post" by (auto simp: occurs_def)
    show "py_in sub (c # cs)"
    proof (cases pre)
      case Nil
      with eq have "startswith sub (c # cs)" by (auto simp: startswith_iff)
      then show ?thesis by simp
    next
      case (Cons p ps)
      with eq have "cs = ps @ sub @ post" by simp
      then have "occurs sub cs" unfolding occurs_def by blast
      then show ?thesis using Cons.IH by simp
    qed
  qed
qed

lemma py_in_char: "py_in [x] s \<longleftrightarrow> x \<in> set s"
  by (induction s) auto

section \<open>Proofs: the retry wrapper\<close>

lemma notice_of_retried: "retried e \<Longrightarrow> notice_of e = Caught419 e"
  by (cases e) auto

lemma error_handler_unfold_retried:
  assumes "func s = (Inl e, s1)" "retried e"
  shows "error_handler (Suc n) py_print func init s =
         (case py_print (notice_of e) s1 of
            Some e' \<Rightarrow> Some (Inl e', s1)
          | None \<Rightarrow>
              (case init s1 of
                 None \<Rightarrow> None
               | Some (Inl e', s2) \<Rightarrow> Some (Inl e', s2)
               | Some (Inr u, s2) \<Rightarrow> error_handler n py_print func init s2))"
  using assms by (cases e) auto

lemma error_handler_unfold_not_retried:
  assumes "func s = (Inl e, s1)" "\<not> retried e"
  shows "error_handler (Suc n) py_print func init s =
         (case py_print (notice_of e) s1 of
            Some e' \<Rightarrow> Some (Inl e', s1)
          | None \<Rightarrow> Some (Inr None, s1))"
  using assms by (cases e) auto

lemma error_handler_unfold_success:
  assumes "func s = (Inr r, s1)"
  shows "error_handler (Suc n) py_print func init s = Some (Inr (Some r), s1)"
  using assms by simp

text \<open>One round of the loop, by the outcome of the attempt.\<close>

lemma error_handler_Suc_cases:
  obtains (success) r s1 where "func s = (Inr r, s1)"
      "error_handler (Suc n) py_print func init s = Some (Inr (Some r), s1)"
  | (print_raised) e s1 e' where "func s = (Inl e, s1)" "py_print (notice_of e) s1 = Some e'"
      "error_handler (Suc n) py_print func init s = Some (Inl e', s1)"
  | (abandoned) e s1 where "func s = (Inl e, s1)" "\<not> retried e"
      "py_print (notice_of e) s1 = None"
      "error_handler (Suc n) py_print func init s = Some (Inr None, s1)"
  | (diverged) e s1 where "func s = (Inl e, s1)" "retried e" "py_print (notice_of e) s1 = None"
      "init s1 = None" "error_handler (Suc n) py_print func init s = None"
  | (init_raised) e s1 e' s2 where "func s = (Inl e, s1)" "retried e"
      "py_print (notice_of e) s1 = None" "init s1 = Some (Inl e', s2)"
      "error_handler (Suc n) py_print func init s = Some (Inl e', s2)"
  | (again) e s1 u s2 where "func s = (Inl e, s1)" "retried e"
      "py_print (notice_of e) s1 = None" "init s1 = Some (Inr u, s2)"
      "error_handler (Suc n) py_print func init s = error_handler n py_print func init s2"
proof -
  obtain a s1 where f: "func s = (a, s1)" by (cases "func s")
  show ?thesis
  proof (cases a)
    case (Inr r)
    with f success show ?thesis by (simp del: error_handler.simps add: error_handler_unfold_success)
  next
    case (Inl e)
    note f' = f [unfolded Inl]
    show ?thesis
    proof (cases "py_print (notice_of e) s1")
      case (Some e')
      have "error_handler (Suc n) py_print func init s = Some (Inl e', s1)"
      proof (cases "retried e")
        case True
        from error_handler_unfold_retried
          [where func = func and s = s and n = n and init = init and py_print = py_print,
            OF f' True] Some
        show ?thesis by simp
      next
        case False
        from error_handler_unfold_not_retried
          [where func = func and s = s and n = n and init = init and py_print = py_print,
            OF f' False] Some
        show ?thesis by simp
      qed
      from print_raised [OF f' Some this] show ?thesis .
    next
      case None
      show ?thesis
      proof (cases "retried e")
        case False
        from error_handler_unfold_not_retried
          [where func = func and s = s and n = n and init = init and py_print = py_print,
            OF f' False] None
        have "error_handler (Suc n) py_print func init s = Some (Inr None, s1)" by simp
        from abandoned [OF f' False None this] show ?thesis .
      next
        case True
        from error_handler_unfold_retried
          [where func = func and s = s and n = n and init = init and py_print = py_print,
            OF f' True] None
        have u: "error_handler (Suc n) py_print func init s =
            (case init s1 of
               None \<Rightarrow> None
             | Some (Inl e', s2) \<Rightarrow> Some (Inl e', s2)
             | Some (Inr u, s2) \<Rightarrow> error_handler n py_print func init s2)"
          by simp
        show ?thesis
        proof (cases "init s1")
          case a: None
          with u have "error_handler (Suc n) py_print func init s = None" by simp
          from diverged [OF f' True None a this] show ?thesis .
        next
          case (Some p)
          obtain o2 s2 where p: "p = (o2, s2)" by (cases p)
          show ?thesis
          proof (cases o2)
            case (Inl e')
            with u Some p
            have "error_handler (Suc n) py_print func init s = Some (Inl e', s2)" by simp
            from init_raised [OF f' True None _ this] Some p Inl show ?thesis by simp
          next
            case (Inr v)
            with u Some p
            have "error_handler (Suc n) py_print func init s =
                error_handler n py_print func init s2"
              by simp
            from again [OF f' True None _ this] Some p Inr show ?thesis by simp
          qed
        qed
      qed
    qed
  qed
qed

lemma error_handler_never_raises:
  assumes "\<And>s out s'. init s = Some (out, s') \<Longrightarrow> \<exists>u. out = Inr u"
    and "\<And>n s. py_print n s = None"
    and "error_handler n py_print func init s = Some (out, s')"
  shows "\<exists>r. out = Inr r"
  using assms(3)
proof (induction n arbitrary: s)
  case 0
  then show ?case by auto
next
  case (Suc n)
  show ?case
  proof (cases rule: error_handler_Suc_cases
      [where func = func and s = s and py_print = py_print and n = n and init = init])
    case (print_raised e s1 e')
    with assms(2) show ?thesis by simp
  next
    case (init_raised e s1 e' s2)
    with assms(1) show ?thesis by blast
  next
    case (again e s1 u s2)
    with Suc show ?thesis by (simp del: error_handler.simps)
  qed (use Suc.prems in \<open>simp_all del: error_handler.simps\<close>)
qed

lemma error_handler_success_origin:
  assumes "error_handler n py_print func init s = Some (Inr (Some r), s')"
  shows "\<exists>s0. func s0 = (Inr r, s')"
  using assms
proof (induction n arbitrary: s)
  case 0
  then show ?case by simp
next
  case (Suc n)
  show ?case
  proof (cases rule: error_handler_Suc_cases
      [where func = func and s = s and py_print = py_print and n = n and init = init])
    case (success r' s1)
    with Suc.prems show ?thesis by (auto simp del: error_handler.simps)
  next
    case (again e s1 u s2)
    with Suc show ?thesis by (simp del: error_handler.simps)
  qed (use Suc.prems in \<open>simp_all del: error_handler.simps\<close>)
qed

lemma error_handler_returns:
  assumes "\<And>s. \<exists>s'. init s = Some (Inr (), s')"
  shows "\<exists>res. error_handler n py_print func init s = Some res"
proof (induction n arbitrary: s)
  case 0
  show ?case by simp
next
  case (Suc n)
  show ?case
  proof (cases rule: error_handler_Suc_cases
      [where func = func and s = s and py_print = py_print and n = n and init = init])
    case (diverged e s1)
    with assms [of s1] show ?thesis by simp
  next
    case (again e s1 u s2)
    with Suc.IH [of s2] show ?thesis by (simp del: error_handler.simps)
  qed (simp_all del: error_handler.simps)
qed

lemma counting_eq:
  "func s = (out, s') \<Longrightarrow> counting func (c, s) = (out, (Suc c, s'))"
  by (simp add: counting_def)

lemma uncounted_eq:
  "init s = None \<Longrightarrow> uncounted init (c, s) = None"
  "init s = Some (out, s') \<Longrightarrow> uncounted init (c, s) = Some (out, (c, s'))"
  by (simp_all add: uncounted_def)

lemma uncounted_print_eq: "uncounted_print py_print n (c, s) = py_print n s"
  by (simp add: uncounted_print_def)

text \<open>The loop on a counted state, one round: it runs in step with the plain loop.\<close>

lemma error_handler_counted_Suc:
  "error_handler (Suc n) (uncounted_print py_print) (counting func) (uncounted init) (c, s) =
   (case func s of
      (Inr r, s1) \<Rightarrow> Some (Inr (Some r), (Suc c, s1))
    | (Inl e, s1) \<Rightarrow>
        (case py_print (notice_of e) s1 of
           Some e' \<Rightarrow> Some (Inl e', (Suc c, s1))
         | None \<Rightarrow>
             (if retried e then
                (case init s1 of
                   None \<Rightarrow> None
                 | Some (Inl e', s2) \<Rightarrow> Some (Inl e', (Suc c, s2))
                 | Some (Inr u, s2) \<Rightarrow>
                     error_handler n (uncounted_print py_print) (counting func) (uncounted init)
                       (Suc c, s2))
              else Some (Inr None, (Suc c, s1)))))"
proof -
  obtain a s1 where f: "func s = (a, s1)" by (cases "func s")
  note cf = counting_eq [where func = func and s = s and c = c, OF f]
  show ?thesis
  proof (cases a)
    case (Inr r)
    with f cf show ?thesis by simp
  next
    case (Inl e)
    note cf' = cf [unfolded Inl]
    show ?thesis
    proof (cases "retried e")
      case True
      from error_handler_unfold_retried
        [where func = "counting func" and s = "(c, s)" and n = n and init = "uncounted init"
          and py_print = "uncounted_print py_print", OF cf' True] f Inl True
      show ?thesis
        by (cases "init s1")
           (auto simp del: error_handler.simps
              simp: uncounted_print_eq uncounted_def split: option.splits sum.splits)
    next
      case False
      from error_handler_unfold_not_retried
        [where func = "counting func" and s = "(c, s)" and n = n and init = "uncounted init"
          and py_print = "uncounted_print py_print", OF cf' False] f Inl False
      show ?thesis
        by (auto simp del: error_handler.simps simp: uncounted_print_eq split: option.splits)
    qed
  qed
qed

lemma error_handler_plain_Suc:
  "error_handler (Suc n) py_print func init s =
   (case func s of
      (Inr r, s1) \<Rightarrow> Some (Inr (Some r), s1)
    | (Inl e, s1) \<Rightarrow>
        (case py_print (notice_of e) s1 of
           Some e' \<Rightarrow> Some (Inl e', s1)
         | None \<Rightarrow>
             (if retried e then
                (case init s1 of
                   None \<Rightarrow> None
                 | Some (Inl e', s2) \<Rightarrow> Some (Inl e', s2)
                 | Some (Inr u, s2) \<Rightarrow> error_handler n py_print func init s2)
              else Some (Inr None, s1))))"
proof -
  obtain a s1 where f: "func s = (a, s1)" by (cases "func s")
  show ?thesis
  proof (cases a)
    case (Inr r)
    with f show ?thesis by simp
  next
    case (Inl e)
    with f show ?thesis by (cases e) (auto split: option.splits)
  qed
qed

lemma error_handler_attempts_bounded:
  assumes "error_handler n (uncounted_print py_print) (counting func) (uncounted init) (c, s)
           = Some (out, (c', s'))"
  shows "c' \<le> c + n"
  using assms
proof (induction n arbitrary: c s)
  case 0
  then show ?case by simp
next
  case (Suc n)
  from Suc.prems show ?case
    unfolding error_handler_counted_Suc
    by (auto split: prod.splits sum.splits option.splits if_splits dest!: Suc.IH)
qed

lemma error_handler_counting_erasure:
  "map_option (\<lambda>(out, cs). (out, snd cs))
     (error_handler n (uncounted_print py_print) (counting func) (uncounted init) (c, s))
   = error_handler n py_print func init s"
proof (induction n arbitrary: c s)
  case 0
  show ?case by simp
next
  case (Suc n)
  show ?case
    unfolding error_handler_counted_Suc error_handler_plain_Suc [of n py_print func init s]
    by (auto split: prod.splits sum.splits option.splits simp: Suc.IH)
qed

section \<open>Proofs: the request executor\<close>

lemma make_request_body_frame:
  assumes "make_request_body X m u d s = (out, s1)"
  shows "sent s1 = sent s @ [build_request m u d (xsrf_token s)]"
    and "init_calls s1 = init_calls s"
    and "base_url s1 = base_url s"
  using assms
  by (auto simp: make_request_body_def Let_def update_xsrf_token_def
      split: prod.splits sum.splits option.splits)

lemma make_request_body_failure_keeps_token:
  assumes "make_request_body X m u d s = (Inl e, s1)"
  shows "xsrf_token s1 = xsrf_token s"
  using assms
  by (auto simp: make_request_body_def Let_def update_xsrf_token_def
      split: prod.splits sum.splits option.splits)

lemma make_request_body_success_ok:
  assumes "make_request_body X m u d s = (Inr r, s1)"
  shows "response_ok r"
  using assms
  by (auto simp: make_request_body_def Let_def response_ok_def
      split: prod.splits sum.splits option.splits)

lemma show_nat_419: "show_nat 419 = ''419''"
  by (simp add: show_nat.simps digit_char_def)

text \<open>The error of a response with status 419 is one that the wrapper retries.\<close>

lemma status_419_is_retried:
  assumes "raise_for_status r = Some e" "status_code r = 419"
  shows "retried e"
  using assms by (auto simp: raise_for_status_def show_nat_419)

lemma retried_iff:
  "retried e \<longleftrightarrow> (\<exists>st msg. e = HTTPError st msg \<and> occurs ''419'' msg)"
  by (cases e) (simp_all add: py_in_iff_occurs)

lemma initialize_session_result:
  assumes "initialize_session X k s = Some (out, s')"
  shows "out = Inr ()"
  using assms by (auto split: option.splits)

lemma make_request_never_raises:
  assumes "\<forall>n w. print_notice X n w = None"
    and "make_request X k m u d s = Some (out, s')"
  shows "\<exists>r. out = Inr r"
proof (cases k)
  case 0
  with assms show ?thesis by simp
next
  case (Suc j)
  have "\<And>c o' c'. initialize_session X j c = Some (o', c') \<Longrightarrow> \<exists>v. o' = Inr v"
    using initialize_session_result by blast
  moreover have "\<And>n c. client_print X n c = None"
    using assms(1) by (simp add: client_print_def)
  moreover from assms Suc
  have "error_handler 3 (client_print X) (make_request_body X m u d) (initialize_session X j) s
      = Some (out, s')"
    by simp
  ultimately show ?thesis by (rule error_handler_never_raises)
qed

lemma make_request_success_origin:
  assumes "make_request X k m u d s = Some (Inr (Some r), s')"
  shows "\<exists>s0. make_request_body X m u d s0 = (Inr r, s')"
proof (cases k)
  case 0
  with assms show ?thesis by simp
next
  case (Suc j)
  with assms
  have "error_handler 3 (client_print X) (make_request_body X m u d) (initialize_session X j) s =
        Some (Inr (Some r), s')"
    by simp
  then show ?thesis by (rule error_handler_success_origin)
qed

lemma make_request_response_ok:
  assumes "make_request X k m u d s = Some (Inr (Some r), s')"
  shows "response_ok r"
  using make_request_success_origin [OF assms] make_request_body_success_ok by blast

lemma make_request_abandons:
  assumes "make_request_body X m u d s = (Inl e, s1)" "\<not> retried e"
  shows "make_request X (Suc k) m u d s =
         (case print_notice X (notice_of e) (session s1) of
            Some e' \<Rightarrow> Some (Inl e', s1)
          | None \<Rightarrow> Some (Inr None, s1))"
  using error_handler_unfold_not_retried
    [where func = "make_request_body X m u d" and s = s and n = 2
      and init = "initialize_session X k" and py_print = "client_print X", OF assms]
  by (simp add: numeral_3_eq_3 client_print_def del: error_handler.simps)

lemma initialize_session_single_request:
  assumes "make_request_body X ''get'' (base_url s) None (s\<lparr>init_calls := Suc (init_calls s)\<rparr>)
           = (out, s2)"
    and "\<not> (case out of Inl e \<Rightarrow> retried e | Inr r \<Rightarrow> False)"
  shows "initialize_session X (Suc k) s = Some (Inr (), s2)"
proof (cases out)
  case (Inl e)
  with assms have "make_request X (Suc k) ''get'' (base_url s) None
      (s\<lparr>init_calls := Suc (init_calls s)\<rparr>) =
      (case print_notice X (notice_of e) (session s2) of
         Some e' \<Rightarrow> Some (Inl e', s2)
       | None \<Rightarrow> Some (Inr None, s2))"
    by (intro make_request_abandons) auto
  then show ?thesis by (simp split: option.splits)
next
  case (Inr r)
  with assms(1) have "make_request X (Suc k) ''get'' (base_url s) None
      (s\<lparr>init_calls := Suc (init_calls s)\<rparr>) = Some (Inr (Some r), s2)"
    by (simp add: numeral_3_eq_3)
  then show ?thesis by simp
qed

lemma make_request_retry_once:
  assumes first: "make_request_body X m u d s0 = (Inl e1, s1)" and cls: "retried e1"
    and printed: "print_notice X (Caught419 e1) (session s1) = None"
    and init: "initialize_session X k s1 = Some (Inr (), s2)"
    and second: "make_request_body X m u d s2 = (Inr r2, s3)"
  shows "make_request X (Suc k) m u d s0 = Some (Inr (Some r2), s3)"
proof -
  have "make_request X (Suc k) m u d s0 =
        error_handler (Suc 2) (client_print X) (make_request_body X m u d)
          (initialize_session X k) s0"
    by (simp add: numeral_3_eq_3)
  also have "\<dots> = error_handler 2 (client_print X) (make_request_body X m u d)
      (initialize_session X k) s2"
    using error_handler_unfold_retried
      [where func = "make_request_body X m u d" and s = s0 and n = 2
        and init = "initialize_session X k" and py_print = "client_print X", OF first cls]
      init printed notice_of_retried [OF cls]
    by (simp add: client_print_def del: error_handler.simps)
  also have "\<dots> = Some (Inr (Some r2), s3)"
    using second by (simp add: numeral_2_eq_2)
  finally show ?thesis .
qed

text \<open>The counted call runs in step with \<^verbatim>\<open>_make_request\<close> and counts at most 3.\<close>

lemma make_request_counted_erasure:
  "map_option (\<lambda>(res, cs). (res, snd cs)) (make_request_counted X k m u d s)
   = make_request X k m u d s"
  by (cases k) (simp_all add: make_request_counted_def error_handler_counting_erasure)

lemma make_request_counted_bound:
  assumes "make_request_counted X k m u d s = Some (res, (c, s'))"
  shows "c \<le> 3"
proof (cases k)
  case 0
  with assms show ?thesis by (simp add: make_request_counted_def)
next
  case (Suc j)
  with assms have "error_handler 3 (uncounted_print (client_print X))
      (counting (make_request_body X m u d)) (uncounted (initialize_session X j)) (0, s)
      = Some (res, (c, s'))"
    by (simp add: make_request_counted_def)
  from error_handler_attempts_bounded [OF this] show ?thesis by simp
qed

section \<open>Proofs: retry after a 419\<close>

text \<open>The loop with its three rounds written out, and the facts that evaluate a call on
  an example world.\<close>

lemma error_handler_3:
  "error_handler 3 py_print func init s = error_handler (Suc (Suc (Suc 0))) py_print func init s"
  by (simp add: numeral_3_eq_3)

lemmas world_simps =
  scripted_def scripted_send_def steady_def steady_send_def steady_ascii_def
  expired_def expired_send_def client_on_def observe_def
  answer_def answer_json_def client_print_def
  make_request_body_def build_request_def update_xsrf_token_def raise_for_status_def
  py_lower_def lower_char_def dict_get_def show_nat.simps digit_char_def Let_def
  error_handler_3

text \<open>
  Claim C2, as amended.  When the first attempt of a \<^verbatim>\<open>_make_request\<close> call raises an HTTP
  error that the wrapper takes for a 419 (its text holds \<open>419\<close>, as the error of every
  status-419 response does), the notice of it is printed, the bootstrap GET of the
  re-initialization does not itself meet such an error, and the retried attempt succeeds,
  then the call returns the response of the second attempt, \<^verbatim>\<open>_initialize_session\<close> has been
  called exactly once, and three requests were sent: the attempt, the bootstrap GET and the
  retry with the refreshed token.  In all cases, for every transport, nesting bound, request
  and client state, the attempts that one \<^verbatim>\<open>_make_request\<close> call makes of its own request
  number at most 3: the call on a counted state runs as the call itself and ends with a
  count of at most 3.
\<close>

theorem make_request_retries_after_419:
  "(make_request_body X m u d s0 = (Inl e1, s1)
      \<and> retried e1
      \<and> print_notice X (Caught419 e1) (session s1) = None
      \<and> make_request_body X ''get'' (base_url s1) None
           (s1\<lparr>init_calls := Suc (init_calls s1)\<rparr>) = (out, s2)
      \<and> \<not> (case out of Inl e \<Rightarrow> retried e | Inr r \<Rightarrow> False)
      \<and> make_request_body X m u d s2 = (Inr r2, s3)
    \<longrightarrow> make_request X (Suc (Suc k)) m u d s0 = Some (Inr (Some r2), s3)
      \<and> init_calls s3 = Suc (init_calls s0)
      \<and> sent s3 = sent s0 @ [build_request m u d (xsrf_token s0),
                             build_request ''get'' (base_url s0) None (xsrf_token s0),
                             build_request m u d (xsrf_token s2)])
   \<and> map_option (\<lambda>(res, cs). (res, snd cs)) (make_request_counted Y j m' u' d' t)
       = make_request Y j m' u' d' t
   \<and> (make_request_counted Y j m' u' d' t = Some (res, (c, t')) \<longrightarrow> c \<le> 3)"
proof (intro conjI impI)
  assume a: "make_request_body X m u d s0 = (Inl e1, s1)
      \<and> retried e1
      \<and> print_notice X (Caught419 e1) (session s1) = None
      \<and> make_request_body X ''get'' (base_url s1) None
           (s1\<lparr>init_calls := Suc (init_calls s1)\<rparr>) = (out, s2)
      \<and> \<not> (case out of Inl e \<Rightarrow> retried e | Inr r \<Rightarrow> False)
      \<and> make_request_body X m u d s2 = (Inr r2, s3)"
  then have first: "make_request_body X m u d s0 = (Inl e1, s1)" and cls: "retried e1"
    and printed: "print_notice X (Caught419 e1) (session s1) = None"
    and boot: "make_request_body X ''get'' (base_url s1) None
           (s1\<lparr>init_calls := Suc (init_calls s1)\<rparr>) = (out, s2)"
    and unnested: "\<not> (case out of Inl e \<Rightarrow> retried e | Inr r \<Rightarrow> False)"
    and second: "make_request_body X m u d s2 = (Inr r2, s3)"
    by blast+
  have init: "initialize_session X (Suc k) s1 = Some (Inr (), s2)"
    using boot unnested by (rule initialize_session_single_request)
  show "make_request X (Suc (Suc k)) m u d s0 = Some (Inr (Some r2), s3)"
    using first cls printed init second by (rule make_request_retry_once)
  note f1 = make_request_body_frame [OF first] make_request_body_failure_keeps_token [OF first]
  note f2 = make_request_body_frame [OF boot]
  note f3 = make_request_body_frame [OF second]
  show "init_calls s3 = Suc (init_calls s0)"
    using f1 f2 f3 by simp
  show "sent s3 = sent s0 @ [build_request m u d (xsrf_token s0),
      build_request ''get'' (base_url s0) None (xsrf_token s0),
      build_request m u d (xsrf_token s2)]"
    using f1 f2 f3 by simp
next
  show "map_option (\<lambda>(res, cs). (res, snd cs)) (make_request_counted Y j m' u' d' t)
       = make_request Y j m' u' d' t"
    by (rule make_request_counted_erasure)
next
  assume "make_request_counted Y j m' u' d' t = Some (res, (c, t'))"
  then show "c \<le> 3" by (rule make_request_counted_bound)
qed

text \<open>On a script 419, 200, 200 the retry succeeds with two attempts; on a script that
  answers each of the three attempts with 419 the call gives up with a count of 3.\<close>

theorem make_request_retries_after_419_witness:
  "observe (make_request scripted (Suc (Suc 0)) ''post'' ''https://www.emailnator.com/message-list''
      None
      (client_on [Inr (answer 419 ''unknown status'' []), Inr (answer 200 ''OK'' []),
                  Inr (answer 200 ''OK'' ''second'')]))
   = Some (Inr (Some (answer 200 ''OK'' ''second'')), Suc 0, [POST, GET, POST])
   \<and> map_option (\<lambda>(res, cs). (res, fst cs))
       (make_request_counted scripted (Suc (Suc 0)) ''post''
          ''https://www.emailnator.com/message-list'' None
          (client_on [Inr (answer 419 ''unknown status'' []), Inr (answer 200 ''OK'' []),
                      Inr (answer 419 ''unknown status'' []), Inr (answer 200 ''OK'' []),
                      Inr (answer 419 ''unknown status'' []), Inr (answer 200 ''OK'' [])]))
     = Some (Inr None, 3)
   \<and> (3::nat) \<le> 3"
proof -
  let ?U = "''https://www.emailnator.com/message-list''"
  let ?S = "[Inr (answer 419 ''unknown status'' []), Inr (answer 200 ''OK'' []),
             Inr (answer 200 ''OK'' ''second'')] :: (exn + response) list"
  let ?T = "[Inr (answer 419 ''unknown status'' []), Inr (answer 200 ''OK'' []),
             Inr (answer 419 ''unknown status'' []), Inr (answer 200 ''OK'' []),
             Inr (answer 419 ''unknown status'' []), Inr (answer 200 ''OK'' [])]
            :: (exn + response) list"
  let ?E = "HTTPError 419
      ''419 Client Error: unknown status for url: https://www.emailnator.com/message-list''"
  let ?body = "make_request_body scripted ''post'' ?U None"
  define s0 where "s0 = client_on ?S"
  define s1 where "s1 = snd (?body s0)"
  define s2 where "s2 = snd (make_request_body scripted ''get'' (base_url s1) None
      (s1\<lparr>init_calls := Suc (init_calls s1)\<rparr>))"
  define s3 where "s3 = snd (?body s2)"
  define t3 where "t3 = snd (snd (the (make_request_counted scripted (Suc (Suc 0)) ''post'' ?U
      None (client_on ?T))))"
  have first: "?body s0 = (Inl ?E, s1)"
    by (simp add: s1_def s0_def world_simps)
  have cls: "retried ?E"
    by simp
  have printed: "print_notice scripted (Caught419 ?E) (session s1) = None"
    by (simp add: scripted_def)
  have boot: "make_request_body scripted ''get'' (base_url s1) None
      (s1\<lparr>init_calls := Suc (init_calls s1)\<rparr>) = (Inr (answer 200 ''OK'' []), s2)"
    by (simp add: s2_def s1_def s0_def world_simps)
  have unnested: "\<not> (case (Inr (answer 200 ''OK'' []) :: exn + response) of
      Inl e \<Rightarrow> retried e | Inr r \<Rightarrow> False)"
    by simp
  have second: "?body s2 = (Inr (answer 200 ''OK'' ''second''), s3)"
    by (simp add: s3_def s2_def s1_def s0_def world_simps)
  have counted: "make_request_counted scripted (Suc (Suc 0)) ''post'' ?U None (client_on ?T)
      = Some (Inr None, (3, t3))"
    by (simp add: t3_def make_request_counted_def counting_def uncounted_def
        uncounted_print_def world_simps)
  note inst = make_request_retries_after_419
    [where X = scripted and m = "''post''" and u = "?U" and d = None and ?s0.0 = s0
      and ?e1.0 = ?E and ?s1.0 = s1 and out = "Inr (answer 200 ''OK'' [])" and ?s2.0 = s2
      and ?r2.0 = "answer 200 ''OK'' ''second''" and ?s3.0 = s3 and k = 0
      and Y = scripted and j = "Suc (Suc 0)" and m' = "''post''" and u' = "?U" and d' = None
      and t = "client_on ?T" and res = "Inr None" and c = 3 and t' = t3]
  from inst counted have bound: "(3::nat) \<le> 3" by blast
  from inst first cls printed boot unnested second
  have "make_request scripted (Suc (Suc 0)) ''post'' ?U None s0
      = Some (Inr (Some (answer 200 ''OK'' ''second'')), s3)"
    and "init_calls s3 = Suc (init_calls s0)"
    and "sent s3 = sent s0 @ [build_request ''post'' ?U None (xsrf_token s0),
          build_request ''get'' (base_url s0) None (xsrf_token s0),
          build_request ''post'' ?U None (xsrf_token s2)]"
    by blast+
  then have "observe (make_request scripted (Suc (Suc 0)) ''post'' ?U None s0)
      = Some (Inr (Some (answer 200 ''OK'' ''second'')), Suc 0, [POST, GET, POST])"
    by (simp add: observe_def s0_def client_on_def build_request_def py_lower_def lower_char_def)
  with bound counted show ?thesis unfolding s0_def by simp
qed

text \<open>
  Claim C2 as stated fails.  The bootstrap GET of a re-initialization runs through the same
  retry wrapper: here the first POST and the first GET are answered with 419 and every later
  request with 200.  The first attempt raises a 419 error and the retried attempt succeeds
  (the call returns the fifth response), yet \<^verbatim>\<open>_initialize_session\<close> has been called twice
  and five requests were sent.
\<close>

theorem make_request_nested_reinitialization_counterexample:
  "fst (make_request_body scripted ''post'' ''https://www.emailnator.com/message-list'' None
      (client_on [Inr (answer 419 ''unknown status'' []), Inr (answer 419 ''unknown status'' []),
                  Inr (answer 200 ''OK'' []), Inr (answer 200 ''OK'' []),
                  Inr (answer 200 ''OK'' ''second'')]))
   = Inl (HTTPError 419
       ''419 Client Error: unknown status for url: https://www.emailnator.com/message-list'')
   \<and> observe (make_request scripted (Suc (Suc (Suc 0))) ''post''
      ''https://www.emailnator.com/message-list'' None
      (client_on [Inr (answer 419 ''unknown status'' []), Inr (answer 419 ''unknown status'' []),
                  Inr (answer 200 ''OK'' []), Inr (answer 200 ''OK'' []),
                  Inr (answer 200 ''OK'' ''second'')]))
   = Some (Inr (Some (answer 200 ''OK'' ''second'')), 2, [POST, GET, GET, GET, POST])"
  by (simp add: world_simps)

section \<open>Proofs: errors that are not retried, and how errors are classified\<close>

text \<open>
  Claim C3, as amended.  When an attempt of \<^verbatim>\<open>_make_request\<close> raises an HTTP error whose
  text does not contain \<open>419\<close>, or any exception that is not an HTTP error, exactly one
  request has been sent, \<^verbatim>\<open>_initialize_session\<close> has not been called, and the call returns
  \<^verbatim>\<open>None\<close> once the notice of the error is printed (an exception that this \<^verbatim>\<open>print\<close>
  raises is raised by the call).
\<close>

theorem make_request_abandons_unretried_error:
  assumes "make_request_body X m u d s = (Inl e, s1)"
    and "\<forall>st msg. e = HTTPError st msg \<longrightarrow> \<not> occurs ''419'' msg"
  shows "make_request X (Suc k) m u d s =
           (case print_notice X (notice_of e) (session s1) of
              None \<Rightarrow> Some (Inr None, s1)
            | Some e' \<Rightarrow> Some (Inl e', s1))
    \<and> init_calls s1 = init_calls s
    \<and> sent s1 = sent s @ [build_request m u d (xsrf_token s)]"
proof -
  from assms(2) have "\<not> retried e" by (simp add: retried_iff)
  with assms(1) have "make_request X (Suc k) m u d s =
      (case print_notice X (notice_of e) (session s1) of
         Some e' \<Rightarrow> Some (Inl e', s1)
       | None \<Rightarrow> Some (Inr None, s1))"
    by (rule make_request_abandons)
  with make_request_body_frame [OF assms(1)] show ?thesis
    by (simp split: option.splits)
qed

theorem make_request_abandons_unretried_error_witness:
  "observe (make_request steady (Suc 0) ''post'' ''https://www.emailnator.com/message-list'' None
      (client_on 0)) = Some (Inr None, 0, [POST])
   \<and> observe (make_request scripted (Suc 0) ''post'' ''https://www.emailnator.com/message-list''
      None (client_on [])) = Some (Inr None, 0, [POST])"
proof -
  let ?U = "''https://www.emailnator.com/message-list''"
  define a1 where "a1 = snd (make_request_body steady ''post'' ?U None (client_on 0))"
  define b1 where "b1 = snd (make_request_body scripted ''post'' ?U None (client_on []))"
  have fa: "make_request_body steady ''post'' ?U None (client_on 0) = (Inl (HTTPError 500
      ''500 Server Error: Internal Server Error for url: https://www.emailnator.com/message-list''),
      a1)"
    by (simp add: a1_def world_simps)
  have "\<not> py_in ''419''
      ''500 Server Error: Internal Server Error for url: https://www.emailnator.com/message-list''"
    by simp
  then have ha: "\<forall>st msg. HTTPError 500
      ''500 Server Error: Internal Server Error for url: https://www.emailnator.com/message-list''
      = HTTPError st msg \<longrightarrow> \<not> occurs ''419'' msg"
    by (simp add: py_in_iff_occurs)
  have fb: "make_request_body scripted ''post'' ?U None (client_on []) =
      (Inl (ConnectionError ''refused''), b1)"
    by (simp add: b1_def world_simps)
  have hb: "\<forall>st msg. ConnectionError ''refused'' = HTTPError st msg \<longrightarrow> \<not> occurs ''419'' msg"
    by simp
  from make_request_abandons_unretried_error [OF fa ha, of 0]
  have "observe (make_request steady (Suc 0) ''post'' ?U None (client_on 0))
      = Some (Inr None, 0, [POST])"
    by (simp add: observe_def client_on_def build_request_def py_lower_def lower_char_def
        steady_def)
  moreover from make_request_abandons_unretried_error [OF fb hb, of 0]
  have "observe (make_request scripted (Suc 0) ''post'' ?U None (client_on []))
      = Some (Inr None, 0, [POST])"
    by (simp add: observe_def client_on_def build_request_def py_lower_def lower_char_def
        scripted_def)
  ultimately show ?thesis by blast
qed

text \<open>
  Claim C3 as stated fails: a response with status 500 whose reason phrase mentions 419
  raises an HTTP error that is not a 419, and the wrapper re-initializes the session and
  retries; the call sends three requests and returns the response of the retry.
\<close>

theorem make_request_retries_non_419_counterexample:
  "fst (make_request_body scripted ''post'' ''https://www.emailnator.com/message-list'' None
      (client_on [Inr (answer 500 ''upstream answered 419'' []), Inr (answer 200 ''OK'' []),
                  Inr (answer 200 ''OK'' ''second'')]))
   = Inl (HTTPError 500
       ''500 Server Error: upstream answered 419 for url: https://www.emailnator.com/message-list'')
   \<and> observe (make_request scripted (Suc (Suc 0)) ''post''
      ''https://www.emailnator.com/message-list'' None
      (client_on [Inr (answer 500 ''upstream answered 419'' []), Inr (answer 200 ''OK'' []),
                  Inr (answer 200 ''OK'' ''second'')]))
   = Some (Inr (Some (answer 200 ''OK'' ''second'')), 1, [POST, GET, POST])"
  by (simp add: world_simps)

text \<open>
  Claim C10.  For an HTTP error raised by the wrapped function, the branch that the wrapper
  takes is fixed by whether the text \<open>419\<close> occurs in the string of the error, and the
  status code plays no part: when it occurs, the wrapper prints the notice of a caught 419,
  re-initializes the session and goes on with the remaining attempts; when it does not, the
  wrapper prints the notice of a failed request and returns \<^verbatim>\<open>None\<close> at once.
\<close>

theorem error_handler_classifies_by_substring:
  assumes "func s = (Inl (HTTPError st msg), s1)"
  shows "error_handler (Suc n) py_print func init s =
         (if occurs ''419'' msg
          then (case py_print (Caught419 (HTTPError st msg)) s1 of
                  Some e \<Rightarrow> Some (Inl e, s1)
                | None \<Rightarrow>
                    (case init s1 of
                       None \<Rightarrow> None
                     | Some (Inl e, s2) \<Rightarrow> Some (Inl e, s2)
                     | Some (Inr u, s2) \<Rightarrow> error_handler n py_print func init s2))
          else (case py_print (RequestFailed (HTTPError st msg)) s1 of
                  Some e \<Rightarrow> Some (Inl e, s1)
                | None \<Rightarrow> Some (Inr None, s1)))"
  using assms by (simp add: py_in_iff_occurs)

text \<open>With three attempts allowed, a standard output that takes every notice and a session
  re-initialization that counts its calls: a status-500 error whose URL holds \<open>419\<close> is
  retried every time (three re-initializations), a status-419 error whose text lacks \<open>419\<close>
  is not retried.\<close>

theorem error_handler_classifies_by_substring_witness:
  "error_handler (Suc 2) (\<lambda>n c. None)
     (\<lambda>c. (Inl (HTTPError 500
        ''500 Server Error: Internal Server Error for url: https://www.emailnator.com/419''), c))
     (\<lambda>c. Some (Inr (), Suc c)) (0::nat)
   = (Some (Inr None, 3) :: ((exn + response option) \<times> nat) option)
   \<and> error_handler (Suc 2) (\<lambda>n c. None) (\<lambda>c. (Inl (HTTPError 419 ''session expired''), c))
     (\<lambda>c. Some (Inr (), Suc c)) (0::nat)
   = (Some (Inr None, 0) :: ((exn + response option) \<times> nat) option)"
proof -
  let ?long = "''500 Server Error: Internal Server Error for url: https://www.emailnator.com/419''"
  let ?init = "\<lambda>c::nat. Some (Inr () :: exn + unit, Suc c)"
  let ?pr = "\<lambda>(n::notice) (c::nat). None :: exn option"
  let ?f = "\<lambda>c::nat. (Inl (HTTPError 500 ?long) :: exn + response, c)"
  let ?g = "\<lambda>c::nat. (Inl (HTTPError 419 ''session expired'') :: exn + response, c)"
  have "py_in ''419'' ?long" by simp
  then have yes: "occurs ''419'' ?long" by (simp add: py_in_iff_occurs)
  have "\<not> py_in ''419'' ''session expired''" by simp
  then have no: "\<not> occurs ''419'' ''session expired''" by (simp add: py_in_iff_occurs)
  have step: "error_handler (Suc n) ?pr ?f ?init c = error_handler n ?pr ?f ?init (Suc c)" for n c
    using error_handler_classifies_by_substring
      [where func = ?f and s = c and st = 500 and msg = ?long and ?s1.0 = c and n = n
        and init = ?init and py_print = ?pr] yes
    by (simp del: error_handler.simps)
  have "error_handler (Suc 2) ?pr ?f ?init 0 = error_handler 0 ?pr ?f ?init 3"
    by (simp add: step numeral_2_eq_2 numeral_3_eq_3 del: error_handler.simps)
  then have a: "error_handler (Suc 2) ?pr ?f ?init 0 = Some (Inr None, 3)"
    by simp
  have b: "error_handler (Suc 2) ?pr ?g ?init 0 = Some (Inr None, 0)"
    using error_handler_classifies_by_substring
      [where func = ?g and s = 0 and st = 419 and msg = "''session expired''" and ?s1.0 = 0
        and n = 2 and init = ?init and py_print = ?pr] no
    by (simp del: error_handler.simps)
  from a b show ?thesis by blast
qed

section \<open>Proofs: failures and the request executor\<close>

lemma make_request_returns:
  assumes "\<forall>c. initialize_session X j c \<noteq> None"
  shows "\<exists>res. make_request X (Suc j) m u d s = Some res"
proof -
  have "\<exists>c'. initialize_session X j c = Some (Inr (), c')" for c
  proof -
    from assms have "initialize_session X j c \<noteq> None" ..
    then obtain out c' where i: "initialize_session X j c = Some (out, c')"
      by (cases "initialize_session X j c") (auto simp del: initialize_session.simps)
    from initialize_session_result [OF i] i show ?thesis
      by (simp del: initialize_session.simps)
  qed
  then have "\<exists>res. error_handler 3 (client_print X) (make_request_body X m u d)
      (initialize_session X j) s = Some res"
    by (rule error_handler_returns)
  then show ?thesis by simp
qed

text \<open>With a standard output that takes every notice and re-initializations that return,
  a call returns, without raising, \<^verbatim>\<open>None\<close> or the response of a successful attempt.\<close>

lemma make_request_contained:
  assumes "\<forall>n w. print_notice X n w = None" and "\<forall>c. initialize_session X j c \<noteq> None"
  shows "\<exists>out s'. make_request X (Suc j) m u d s = Some (Inr out, s')
           \<and> (out = None \<or> (\<exists>r s0. out = Some r \<and> make_request_body X m u d s0 = (Inr r, s')))"
proof -
  from make_request_returns [OF assms(2)] obtain res s'
    where r: "make_request X (Suc j) m u d s = Some (res, s')"
    by (metis surj_pair)
  from make_request_never_raises [OF assms(1) r] obtain out where o: "res = Inr out" ..
  show ?thesis
  proof (cases out)
    case None
    with r o show ?thesis by simp
  next
    case (Some v)
    with r o have "make_request X (Suc j) m u d s = Some (Inr (Some v), s')" by simp
    from this make_request_success_origin [OF this] show ?thesis by blast
  qed
qed

lemma make_request_succeeds_or_None:
  assumes "\<forall>n w. print_notice X n w = None" and "\<forall>c. initialize_session X j c \<noteq> None"
  shows "(\<exists>r s'. make_request X (Suc j) m u d s = Some (Inr (Some r), s'))
       \<or> (\<exists>s'. make_request X (Suc j) m u d s = Some (Inr None, s'))"
  using make_request_contained [OF assms, of m u d s] by auto

text \<open>
  Claim C7, as amended.  Provided that the standard output takes every notice of the
  wrapper, a call of \<^verbatim>\<open>_make_request\<close> that returns does not raise: it returns \<^verbatim>\<open>None\<close>
  unless one attempt of the request succeeded, in which case it returns that attempt's
  response.  Provided moreover that every session re-initialization returns (within the
  nesting bound \<open>j\<close>), the call does return.  Hence the request
  of \<^verbatim>\<open>generate_email\<close>, \<^verbatim>\<open>get_message_list\<close> and \<^verbatim>\<open>get_email_content\<close> either succeeds or
  returns \<^verbatim>\<open>None\<close>, and then the method returns \<^verbatim>\<open>None\<close>, the empty list and the empty record
  respectively, without raising.
\<close>

theorem request_failures_do_not_raise:
  "((\<forall>n w. print_notice X n w = None) \<and> make_request X k m u d s = Some (res, t) \<longrightarrow>
      res = Inr None \<or> (\<exists>r s0. res = Inr (Some r) \<and> make_request_body X m u d s0 = (Inr r, t)))
   \<and> ((\<forall>n w. print_notice X n w = None) \<and> (\<forall>c. initialize_session X j c \<noteq> None) \<longrightarrow>
   (\<exists>out s'. make_request X (Suc j) m u d s = Some (Inr out, s')
       \<and> (out = None \<or> (\<exists>r s0. out = Some r \<and> make_request_body X m u d s0 = (Inr r, s'))))
   \<and> ((\<exists>r s'. make_request X (Suc j) ''post'' (base_url s @ ''/generate-email'')
            (Some (JObj [(''email'', JArr (map JStr email_types))])) s = Some (Inr (Some r), s'))
      \<or> (\<exists>s'. make_request X (Suc j) ''post'' (base_url s @ ''/generate-email'')
            (Some (JObj [(''email'', JArr (map JStr email_types))])) s = Some (Inr None, s')
          \<and> generate_email X (Suc j) email_types s = Some (Inr JNull, s')))
   \<and> ((\<exists>r s'. make_request X (Suc j) ''post'' (base_url s @ ''/message-list'')
            (Some (JObj [(''email'', JStr email)])) s = Some (Inr (Some r), s'))
      \<or> (\<exists>s'. make_request X (Suc j) ''post'' (base_url s @ ''/message-list'')
            (Some (JObj [(''email'', JStr email)])) s = Some (Inr None, s')
          \<and> get_message_list X (Suc j) email s = Some (Inr [], s')))
   \<and> ((\<exists>r s'. make_request X (Suc j) ''post'' (base_url s @ ''/message-list'')
            (Some (JObj [(''email'', JStr email), (''messageID'', JStr message_id)])) s
            = Some (Inr (Some r), s'))
      \<or> (\<exists>s'. make_request X (Suc j) ''post'' (base_url s @ ''/message-list'')
            (Some (JObj [(''email'', JStr email), (''messageID'', JStr message_id)])) s
            = Some (Inr None, s')
          \<and> get_email_content X (Suc j) email message_id s = Some (Inr [], s'))))"
proof (rule conjI; rule impI)
  assume a: "(\<forall>n w. print_notice X n w = None) \<and> make_request X k m u d s = Some (res, t)"
  then obtain v where v: "res = Inr v" using make_request_never_raises by blast
  show "res = Inr None \<or> (\<exists>r s0. res = Inr (Some r) \<and> make_request_body X m u d s0 = (Inr r, t))"
  proof (cases v)
    case None
    with v show ?thesis by simp
  next
    case (Some r)
    with a v have "make_request X k m u d s = Some (Inr (Some r), t)" by simp
    from make_request_success_origin [OF this] v Some show ?thesis by blast
  qed
next
  assume h: "(\<forall>n w. print_notice X n w = None) \<and> (\<forall>c. initialize_session X j c \<noteq> None)"
  then have h1: "\<forall>n w. print_notice X n w = None"
    and h2: "\<forall>c. initialize_session X j c \<noteq> None"
    by blast+
  note total = make_request_succeeds_or_None [OF h1 h2]
  have gen: "make_request X (Suc j) ''post'' (base_url s @ ''/generate-email'')
      (Some (JObj [(''email'', JArr (map JStr email_types))])) s = Some (Inr None, s') \<Longrightarrow>
      generate_email X (Suc j) email_types s = Some (Inr JNull, s')" for s'
    by (simp add: generate_email_def del: make_request.simps)
  have lst: "make_request X (Suc j) ''post'' (base_url s @ ''/message-list'')
      (Some (JObj [(''email'', JStr email)])) s = Some (Inr None, s') \<Longrightarrow>
      get_message_list X (Suc j) email s = Some (Inr [], s')" for s'
    by (simp add: get_message_list_def del: make_request.simps)
  have cnt: "make_request X (Suc j) ''post'' (base_url s @ ''/message-list'')
      (Some (JObj [(''email'', JStr email), (''messageID'', JStr message_id)])) s
      = Some (Inr None, s') \<Longrightarrow>
      get_email_content X (Suc j) email message_id s = Some (Inr [], s')" for s'
    by (simp add: get_email_content_def del: make_request.simps)
  show "(\<exists>out s'. make_request X (Suc j) m u d s = Some (Inr out, s')
       \<and> (out = None \<or> (\<exists>r s0. out = Some r \<and> make_request_body X m u d s0 = (Inr r, s'))))
   \<and> ((\<exists>r s'. make_request X (Suc j) ''post'' (base_url s @ ''/generate-email'')
            (Some (JObj [(''email'', JArr (map JStr email_types))])) s = Some (Inr (Some r), s'))
      \<or> (\<exists>s'. make_request X (Suc j) ''post'' (base_url s @ ''/generate-email'')
            (Some (JObj [(''email'', JArr (map JStr email_types))])) s = Some (Inr None, s')
          \<and> generate_email X (Suc j) email_types s = Some (Inr JNull, s')))
   \<and> ((\<exists>r s'. make_request X (Suc j) ''post'' (base_url s @ ''/message-list'')
            (Some (JObj [(''email'', JStr email)])) s = Some (Inr (Some r), s'))
      \<or> (\<exists>s'. make_request X (Suc j) ''post'' (base_url s @ ''/message-list'')
            (Some (JObj [(''email'', JStr email)])) s = Some (Inr None, s')
          \<and> get_message_list X (Suc j) email s = Some (Inr [], s')))
   \<and> ((\<exists>r s'. make_request X (Suc j) ''post'' (base_url s @ ''/message-list'')
            (Some (JObj [(''email'', JStr email), (''messageID'', JStr message_id)])) s
            = Some (Inr (Some r), s'))
      \<or> (\<exists>s'. make_request X (Suc j) ''post'' (base_url s @ ''/message-list'')
            (Some (JObj [(''email'', JStr email), (''messageID'', JStr message_id)])) s
            = Some (Inr None, s')
          \<and> get_email_content X (Suc j) email message_id s = Some (Inr [], s')))"
  proof (intro conjI)
    show "\<exists>out s'. make_request X (Suc j) m u d s = Some (Inr out, s')
       \<and> (out = None \<or> (\<exists>r s0. out = Some r \<and> make_request_body X m u d s0 = (Inr r, s')))"
      using h1 h2 by (rule make_request_contained)
  next
    from total [of "''post''" "base_url s @ ''/generate-email''"
        "Some (JObj [(''email'', JArr (map JStr email_types))])" s] gen
    show "(\<exists>r s'. make_request X (Suc j) ''post'' (base_url s @ ''/generate-email'')
            (Some (JObj [(''email'', JArr (map JStr email_types))])) s = Some (Inr (Some r), s'))
      \<or> (\<exists>s'. make_request X (Suc j) ''post'' (base_url s @ ''/generate-email'')
            (Some (JObj [(''email'', JArr (map JStr email_types))])) s = Some (Inr None, s')
          \<and> generate_email X (Suc j) email_types s = Some (Inr JNull, s'))"
      by blast
  next
    from total [of "''post''" "base_url s @ ''/message-list''"
        "Some (JObj [(''email'', JStr email)])" s] lst
    show "(\<exists>r s'. make_request X (Suc j) ''post'' (base_url s @ ''/message-list'')
            (Some (JObj [(''email'', JStr email)])) s = Some (Inr (Some r), s'))
      \<or> (\<exists>s'. make_request X (Suc j) ''post'' (base_url s @ ''/message-list'')
            (Some (JObj [(''email'', JStr email)])) s = Some (Inr None, s')
          \<and> get_message_list X (Suc j) email s = Some (Inr [], s'))"
      by blast
  next
    from total [of "''post''" "base_url s @ ''/message-list''"
        "Some (JObj [(''email'', JStr email), (''messageID'', JStr message_id)])" s] cnt
    show "(\<exists>r s'. make_request X (Suc j) ''post'' (base_url s @ ''/message-list'')
            (Some (JObj [(''email'', JStr email), (''messageID'', JStr message_id)])) s
            = Some (Inr (Some r), s'))
      \<or> (\<exists>s'. make_request X (Suc j) ''post'' (base_url s @ ''/message-list'')
            (Some (JObj [(''email'', JStr email), (''messageID'', JStr message_id)])) s
            = Some (Inr None, s')
          \<and> get_email_content X (Suc j) email message_id s = Some (Inr [], s'))"
      by blast
  qed
qed

text \<open>On the server that answers every POST with 500 and every GET with 200, with a
  standard output that takes every notice.\<close>

theorem request_failures_do_not_raise_witness:
  "observe (make_request steady (Suc (Suc 0)) ''post''
       ''https://www.emailnator.com/generate-email''
       (Some (JObj [(''email'', JArr (map JStr [''dotGmail'', ''googleMail'']))])) (client_on 0))
     = Some (Inr None, 0, [POST])
   \<and> observe (generate_email steady (Suc (Suc 0)) [''dotGmail'', ''googleMail''] (client_on 0))
       = Some (Inr JNull, 0, [POST])
   \<and> observe (get_message_list steady (Suc (Suc 0)) ''a.b@gmail.com'' (client_on 0))
       = Some (Inr [], 0, [POST])
   \<and> observe (get_email_content steady (Suc (Suc 0)) ''a.b@gmail.com'' ''MQ=='' (client_on 0))
       = Some (Inr [], 0, [POST])"
proof -
  let ?k = "Suc (Suc 0)"
  let ?s = "client_on (0::nat)"
  let ?G = "Some (JObj [(''email'', JArr (map JStr [''dotGmail'', ''googleMail'']))])"
  let ?L = "Some (JObj [(''email'', JStr ''a.b@gmail.com'')])"
  let ?C = "Some (JObj [(''email'', JStr ''a.b@gmail.com''), (''messageID'', JStr ''MQ=='')])"
  have quiet: "\<forall>n w. print_notice steady n w = None"
    by (simp add: steady_def)
  have inits: "\<forall>c. initialize_session steady (Suc 0) c \<noteq> None"
    by (simp add: world_simps)
  have failing: "fst (make_request_body steady ''post'' u d c) \<noteq> Inr r" for u d c r
    by (simp add: world_simps)
  have never: "make_request steady ?k ''post'' u d ?s \<noteq> Some (Inr (Some r), s')" for u d r s'
  proof
    assume "make_request steady ?k ''post'' u d ?s = Some (Inr (Some r), s')"
    from make_request_success_origin [OF this] failing show False
      by (metis fst_conv)
  qed
  note inst = request_failures_do_not_raise
    [where X = steady and j = "Suc 0" and s = ?s and email_types = "[''dotGmail'', ''googleMail'']"
      and email = "''a.b@gmail.com''" and message_id = "''MQ==''"
      and m = "''post''" and u = "''https://www.emailnator.com/generate-email''" and d = ?G]
  from inst quiet inits never
  obtain s1 s2 s3 where
    g: "make_request steady ?k ''post'' (base_url ?s @ ''/generate-email'') ?G ?s
        = Some (Inr None, s1)"
       "generate_email steady ?k [''dotGmail'', ''googleMail''] ?s = Some (Inr JNull, s1)"
    and l: "make_request steady ?k ''post'' (base_url ?s @ ''/message-list'') ?L ?s
        = Some (Inr None, s2)"
       "get_message_list steady ?k ''a.b@gmail.com'' ?s = Some (Inr [], s2)"
    and c: "make_request steady ?k ''post'' (base_url ?s @ ''/message-list'') ?C ?s
        = Some (Inr None, s3)"
       "get_email_content steady ?k ''a.b@gmail.com'' ''MQ=='' ?s = Some (Inr [], s3)"
    by blast
  have e1: "observe (make_request steady ?k ''post'' (base_url ?s @ ''/generate-email'') ?G ?s)
      = Some (Inr None, 0, [POST])"
    and e2: "observe (make_request steady ?k ''post'' (base_url ?s @ ''/message-list'') ?L ?s)
      = Some (Inr None, 0, [POST])"
    and e3: "observe (make_request steady ?k ''post'' (base_url ?s @ ''/message-list'') ?C ?s)
      = Some (Inr None, 0, [POST])"
    by (simp_all add: world_simps)
  from inst [where k = ?k and res = "Inr None" and t = s1] quiet g(1)
  have "(Inr None :: exn + response option) = Inr None
      \<or> (\<exists>r s0. (Inr None :: exn + response option) = Inr (Some r)
            \<and> make_request_body steady ''post'' ''https://www.emailnator.com/generate-email''
                 ?G s0 = (Inr r, s1))"
    by (simp add: client_on_def del: make_request.simps)
  from e1 g have o1: "init_calls s1 = 0 \<and> map verb (sent s1) = [POST]"
    by (simp add: observe_def del: make_request.simps)
  from e2 l have o2: "init_calls s2 = 0 \<and> map verb (sent s2) = [POST]"
    by (simp add: observe_def del: make_request.simps)
  from e3 c have o3: "init_calls s3 = 0 \<and> map verb (sent s3) = [POST]"
    by (simp add: observe_def del: make_request.simps)
  have u: "base_url ?s @ ''/generate-email'' = ''https://www.emailnator.com/generate-email''"
    by (simp add: client_on_def)
  from e1 g(2) l(2) c(2) o1 o2 o3 show ?thesis
    unfolding u by (simp add: observe_def del: make_request.simps)
qed

lemma expired_never_returns: "make_request expired k m u d s = None"
proof (induction k arbitrary: m u d s)
  case 0
  show ?case by simp
next
  case (Suc k)
  obtain s1 where b: "make_request_body expired m u d s = (Inl (HTTPError 419
      ''419 Client Error: unknown status for url: https://www.emailnator.com/message-list''), s1)"
    by (simp add: world_simps)
  have r: "retried (HTTPError 419
      ''419 Client Error: unknown status for url: https://www.emailnator.com/message-list'')"
    by simp
  have i: "initialize_session expired k s1 = None"
    by (simp add: Suc.IH)
  from error_handler_unfold_retried
    [where func = "make_request_body expired m u d" and s = s and n = 2
      and init = "initialize_session expired k" and py_print = "client_print expired", OF b r] i
  show ?case
    by (simp add: numeral_3_eq_3 client_print_def expired_def steady_def
        del: error_handler.simps initialize_session.simps)
qed

text \<open>
  Claim C7 as stated fails.  On a standard output that cannot encode the notice, the
  \<^verbatim>\<open>print\<close> in the \<^verbatim>\<open>except\<close> clause raises: the failure of the request (a status 500)
  leaves \<^verbatim>\<open>_make_request\<close> as a \<^verbatim>\<open>UnicodeEncodeError\<close>, and \<^verbatim>\<open>generate_email\<close> raises it.  And
  against a server that answers every request with 419 the call returns nothing, whatever
  the nesting bound: each re-initialization meets a 419 and re-initializes again.
\<close>

theorem request_failure_escapes_counterexample:
  "observe (make_request steady_ascii (Suc 0) ''post''
       ''https://www.emailnator.com/generate-email''
       (Some (JObj [(''email'', JArr (map JStr [''dotGmail'', ''googleMail'']))])) (client_on 0))
     = Some (Inl UnicodeEncodeError, 0, [POST])
   \<and> observe (generate_email steady_ascii (Suc 0) [''dotGmail'', ''googleMail''] (client_on 0))
     = Some (Inl UnicodeEncodeError, 0, [POST])
   \<and> (\<forall>k. make_request expired k ''post'' ''https://www.emailnator.com/generate-email''
       (Some (JObj [(''email'', JArr (map JStr [''dotGmail'', ''googleMail'']))])) (client_on 0)
     = None)"
proof (intro conjI)
  show "observe (make_request steady_ascii (Suc 0) ''post''
       ''https://www.emailnator.com/generate-email''
       (Some (JObj [(''email'', JArr (map JStr [''dotGmail'', ''googleMail'']))])) (client_on 0))
     = Some (Inl UnicodeEncodeError, 0, [POST])"
    by (simp add: world_simps)
  show "observe (generate_email steady_ascii (Suc 0) [''dotGmail'', ''googleMail''] (client_on 0))
     = Some (Inl UnicodeEncodeError, 0, [POST])"
    by (simp add: generate_email_def world_simps)
  show "\<forall>k. make_request expired k ''post'' ''https://www.emailnator.com/generate-email''
       (Some (JObj [(''email'', JArr (map JStr [''dotGmail'', ''googleMail'']))])) (client_on 0)
     = None"
    by (simp add: expired_never_returns)
qed

section \<open>Proofs: no attempt, no request\<close>

text \<open>
  Claim C9.  With \<^verbatim>\<open>max_attempts = 0\<close> the loop of \<^verbatim>\<open>generate_premium_email\<close> has no
  round: the call returns \<^verbatim>\<open>None\<close> and leaves the client as it was, so no request has
  been sent and \<^verbatim>\<open>generate_email\<close> has not run.
\<close>

theorem generate_premium_email_zero_attempts:
  "generate_premium_email X k 0 num email_type s = Some (Inr JNull, s)"
  by (simp add: generate_premium_email_def)

section \<open>Proofs: listing messages and detecting a new one\<close>

lemma filter_messages_shaped:
  assumes "\<forall>m \<in> set msgs. has_string_field ''from'' m"
  shows "filter_messages msgs = Inr (filter from_has_at msgs)"
  using assms
proof (induction msgs)
  case Nil
  show ?case by simp
next
  case (Cons m msgs)
  then have ih: "filter_messages msgs = Inr (filter from_has_at msgs)" by simp
  from Cons.prems obtain d sender where m: "m = JObj d" "map_of d ''from'' = Some (JStr sender)"
    by (auto simp: has_string_field_def split: json.splits option.splits)
  then have "item_from m = Inr (JStr sender)" by (simp add: dict_item_def)
  moreover have "contains_at (JStr sender) = Inr (from_has_at m)"
    using m by (simp add: from_has_at_def py_in_char)
  ultimately show ?case using ih by simp
qed

lemma filter_messages_dicts:
  assumes "filter_messages xs = Inr ms"
  shows "\<forall>m \<in> set ms. \<exists>d. m = JObj d"
  using assms
proof (induction xs arbitrary: ms)
  case Nil
  then show ?case by simp
next
  case (Cons x xs)
  from Cons.prems obtain v b ms' where
    x: "item_from x = Inr v" and "contains_at v = Inr b" and
    r: "filter_messages xs = Inr ms'" and ms: "ms = (if b then x # ms' else ms')"
    by (auto split: sum.splits)
  from x obtain d where "x = JObj d" by (cases x) auto
  with Cons.IH [OF r] ms show ?case by auto
qed

lemma get_message_list_dicts:
  assumes "get_message_list X k email s = Some (Inr msgs, s1)"
  shows "\<forall>m \<in> set msgs. \<exists>d. m = JObj d"
proof -
  from assms consider "msgs = []" | r where "message_data r = Inr msgs"
    by (auto simp: get_message_list_def split: option.splits sum.splits if_splits)
  then show ?thesis
  proof cases
    case 1
    then show ?thesis by simp
  next
    case 2
    then obtain xs where "filter_messages xs = Inr msgs"
      by (auto simp: message_data_def split: option.splits json.splits sum.splits)
    then show ?thesis by (rule filter_messages_dicts)
  qed
qed

text \<open>
  Claim C6, as amended.  When the request succeeds and the response is a JSON object whose
  \<open>messageData\<close> (the empty array when it is missing) is an array of objects that each have
  a string \<open>from\<close> field, \<^verbatim>\<open>get_message_list\<close> returns the entries whose \<open>from\<close> contains
  the character \<open>@\<close>, in the order of the array.  When the request returns no response, it
  returns the empty list.
\<close>

theorem get_message_list_filters_senders:
  "(make_request X k ''post'' (base_url s @ ''/message-list'')
       (Some (JObj [(''email'', JStr email)])) s = Some (Inr (Some r), s')
     \<and> body_json r = Some (JObj d)
     \<and> dict_get d ''messageData'' (JArr []) = JArr msgs
     \<and> (\<forall>m \<in> set msgs. has_string_field ''from'' m)
     \<longrightarrow> get_message_list X k email s = Some (Inr (filter from_has_at msgs), s'))
   \<and> (make_request X k ''post'' (base_url s @ ''/message-list'')
       (Some (JObj [(''email'', JStr email)])) s = Some (Inr None, s')
     \<longrightarrow> get_message_list X k email s = Some (Inr [], s'))"
proof (intro conjI impI)
  assume a: "make_request X k ''post'' (base_url s @ ''/message-list'')
       (Some (JObj [(''email'', JStr email)])) s = Some (Inr (Some r), s')
     \<and> body_json r = Some (JObj d)
     \<and> dict_get d ''messageData'' (JArr []) = JArr msgs
     \<and> (\<forall>m \<in> set msgs. has_string_field ''from'' m)"
  then have ok: "response_ok r" using make_request_response_ok by blast
  from a have "filter_messages msgs = Inr (filter from_has_at msgs)"
    using filter_messages_shaped by blast
  with a have "message_data r = Inr (filter from_has_at msgs)"
    by (simp add: message_data_def)
  with a ok show "get_message_list X k email s = Some (Inr (filter from_has_at msgs), s')"
    by (simp add: get_message_list_def)
next
  assume "make_request X k ''post'' (base_url s @ ''/message-list'')
       (Some (JObj [(''email'', JStr email)])) s = Some (Inr None, s')"
  then show "get_message_list X k email s = Some (Inr [], s')"
    by (simp add: get_message_list_def)
qed

theorem get_message_list_filters_senders_witness:
  "observe (get_message_list scripted (Suc 0) ''a.b@gmail.com'' (client_on [Inr inbox_response]))
   = Some (Inr [summary ''MQ=='' ''Ann <ann@example.org>'' ''Hi'' ''5 min ago'',
                summary ''Mw=='' ''Bob <bob@example.org>'' ''Re: Hi'' ''Just Now''], 0, [POST])
   \<and> observe (get_message_list scripted (Suc 0) ''a.b@gmail.com'' (client_on []))
   = Some (Inr [], 0, [POST])"
proof -
  let ?L = "Some (JObj [(''email'', JStr ''a.b@gmail.com'')])"
  let ?a = "client_on [Inr inbox_response :: exn + response]"
  let ?b = "client_on ([] :: (exn + response) list)"
  define a1 where "a1 = snd (make_request_body scripted ''post'' (base_url ?a @ ''/message-list'') ?L ?a)"
  define b1 where "b1 = snd (make_request_body scripted ''post'' (base_url ?b @ ''/message-list'') ?L ?b)"
  have oa: "init_calls a1 = 0 \<and> map verb (sent a1) = [POST]"
    and ob: "init_calls b1 = 0 \<and> map verb (sent b1) = [POST]"
    by (simp_all add: a1_def b1_def inbox_response_def world_simps)
  have ra: "make_request scripted (Suc 0) ''post'' (base_url ?a @ ''/message-list'') ?L ?a
      = Some (Inr (Some inbox_response), a1)"
    by (simp add: a1_def inbox_response_def world_simps)
  have rb: "make_request scripted (Suc 0) ''post'' (base_url ?b @ ''/message-list'') ?L ?b
      = Some (Inr None, b1)"
    by (simp add: b1_def world_simps)
  have js: "body_json inbox_response = Some (JObj [(''messageData'', JArr inbox)])"
    by (simp add: inbox_response_def answer_json_def)
  have arr: "dict_get [(''messageData'', JArr inbox)] ''messageData'' (JArr []) = JArr inbox"
    by (simp add: dict_get_def)
  have shape: "\<forall>m \<in> set inbox. has_string_field ''from'' m"
    by (simp add: inbox_def summary_def has_string_field_def)
  have sel: "filter from_has_at inbox =
      [summary ''MQ=='' ''Ann <ann@example.org>'' ''Hi'' ''5 min ago'',
       summary ''Mw=='' ''Bob <bob@example.org>'' ''Re: Hi'' ''Just Now'']"
    by (simp add: inbox_def summary_def from_has_at_def)
  from get_message_list_filters_senders
    [where X = scripted and k = "Suc 0" and s = ?a and email = "''a.b@gmail.com''"
      and r = inbox_response and s' = a1 and d = "[(''messageData'', JArr inbox)]"
      and msgs = inbox] ra js arr shape
  have "get_message_list scripted (Suc 0) ''a.b@gmail.com'' ?a
      = Some (Inr (filter from_has_at inbox), a1)"
    by blast
  with sel oa have A: "observe (get_message_list scripted (Suc 0) ''a.b@gmail.com'' ?a)
      = Some (Inr [summary ''MQ=='' ''Ann <ann@example.org>'' ''Hi'' ''5 min ago'',
                   summary ''Mw=='' ''Bob <bob@example.org>'' ''Re: Hi'' ''Just Now''], 0, [POST])"
    by (simp add: observe_def)
  from get_message_list_filters_senders
    [where X = scripted and k = "Suc 0" and s = ?b and email = "''a.b@gmail.com''" and s' = b1] rb
  have "get_message_list scripted (Suc 0) ''a.b@gmail.com'' ?b = Some (Inr [], b1)"
    by blast
  with ob have B: "observe (get_message_list scripted (Suc 0) ''a.b@gmail.com'' ?b)
      = Some (Inr [], 0, [POST])"
    by (simp add: observe_def)
  from A B show ?thesis by blast
qed

text \<open>
  Claim C6 as stated fails: the listing below has one entry whose \<open>from\<close> contains \<open>@\<close> and
  one entry without a \<open>from\<close> field.  The test \<^verbatim>\<open>"@" in msg["from"]\<close> raises \<^verbatim>\<open>KeyError\<close> on
  the second, and \<^verbatim>\<open>get_message_list\<close> raises it instead of returning the first entry.
\<close>

theorem get_message_list_missing_from_counterexample:
  "observe (get_message_list scripted (Suc 0) ''a.b@gmail.com''
      (client_on [Inr (answer_json (JObj [(''messageData'', JArr
         [summary ''MQ=='' ''Ann <ann@example.org>'' ''Hi'' ''5 min ago'',
          JObj [(''messageID'', JStr ''Mg==''), (''subject'', JStr ''Offer''),
                (''time'', JStr ''Just Now'')]])]))]))
   = Some (Inl (KeyError ''from''), 0, [POST])"
  by (simp add: get_message_list_def message_data_def response_ok_def dict_item_def summary_def
      world_simps)

lemma time_test:
  "(dict_get d ''time'' (JStr []) = JStr ''Just Now'') = time_is_just_now (JObj d)"
  by (auto simp: dict_get_def time_is_just_now_def split: option.splits)

lemma scan_messages_find:
  assumes "\<forall>m \<in> set msgs. \<exists>d. m = JObj d"
  shows "scan_messages callback msgs s =
         (case find time_is_just_now msgs of
            None \<Rightarrow> notify callback (JObj []) s
          | Some m \<Rightarrow>
              (case item_subject m of
                 Inl e \<Rightarrow> Some (Inl e, s)
               | Inr v \<Rightarrow> notify callback m s))"
  using assms
proof (induction msgs)
  case Nil
  show ?case by simp
next
  case (Cons m msgs)
  then obtain d where m: "m = JObj d" by auto
  from Cons have ih: "scan_messages callback msgs s =
      (case find time_is_just_now msgs of
         None \<Rightarrow> notify callback (JObj []) s
       | Some m \<Rightarrow>
           (case item_subject m of
              Inl e \<Rightarrow> Some (Inl e, s)
            | Inr v \<Rightarrow> notify callback m s))"
    by simp
  show ?case
  proof (cases "time_is_just_now m")
    case True
    with m show ?thesis by (simp add: time_test)
  next
    case False
    with m ih show ?thesis by (simp add: time_test)
  qed
qed

lemma item_subject_present:
  assumes "has_field ''subject'' m"
  shows "\<exists>v. item_subject m = Inr v"
  using assms by (cases m) (auto simp: has_field_def dict_item_def)

text \<open>
  Claim C4, as amended.  Let \<^verbatim>\<open>get_message_list\<close> return the list \<open>msgs\<close>.  If some entry
  has the time \<open>Just Now\<close> and the first such entry of the list has a \<open>subject\<close> field (the
  log line reads it), then \<^verbatim>\<open>get_new_message\<close> returns that entry; with a callback, the
  callback runs on that entry and, when it returns, the entry is returned.  If no entry has
  that time, the empty record is returned, and a callback runs on the empty record.
\<close>

theorem get_new_message_first_just_now:
  assumes "get_message_list X k email s = Some (Inr msgs, s1)"
  shows "(find time_is_just_now msgs = Some m \<and> has_field ''subject'' m \<longrightarrow>
            get_new_message X k email None s = Some (Inr m, s1)
            \<and> (f m s1 = Some (Inr (), s2) \<longrightarrow>
                 get_new_message X k email (Some f) s = Some (Inr m, s2)))
       \<and> (find time_is_just_now msgs = None \<longrightarrow>
            get_new_message X k email None s = Some (Inr (JObj []), s1)
            \<and> (f (JObj []) s1 = Some (Inr (), s2) \<longrightarrow>
                 get_new_message X k email (Some f) s = Some (Inr (JObj []), s2)))"
proof -
  have scan: "get_new_message X k email callback s =
      (case find time_is_just_now msgs of
         None \<Rightarrow> notify callback (JObj []) s1
       | Some m \<Rightarrow>
           (case item_subject m of
              Inl e \<Rightarrow> Some (Inl e, s1)
            | Inr v \<Rightarrow> notify callback m s1))"
    for callback
    using assms get_message_list_dicts [OF assms]
    by (simp add: get_new_message_def scan_messages_find)
  show ?thesis
    using item_subject_present [of m]
    by (auto simp: scan notify_def)
qed

theorem get_new_message_first_just_now_witness:
  "map_option (apsnd xsrf_token)
      (get_new_message scripted (Suc 0) ''a.b@gmail.com'' None (client_on [Inr inbox_response]))
   = Some (Inr (summary ''Mw=='' ''Bob <bob@example.org>'' ''Re: Hi'' ''Just Now''), Some ''token'')
   \<and> map_option (apsnd xsrf_token)
      (get_new_message scripted (Suc 0) ''a.b@gmail.com'' (Some forget)
         (client_on [Inr inbox_response]))
   = Some (Inr (summary ''Mw=='' ''Bob <bob@example.org>'' ''Re: Hi'' ''Just Now''), None)
   \<and> map_option (apsnd xsrf_token)
      (get_new_message scripted (Suc 0) ''a.b@gmail.com'' (Some forget) (client_on []))
   = Some (Inr (JObj []), None)"
proof -
  let ?ann = "summary ''MQ=='' ''Ann <ann@example.org>'' ''Hi'' ''5 min ago''"
  let ?bob = "summary ''Mw=='' ''Bob <bob@example.org>'' ''Re: Hi'' ''Just Now''"
  let ?L = "Some (JObj [(''email'', JStr ''a.b@gmail.com'')])"
  let ?a = "client_on [Inr inbox_response :: exn + response]"
  let ?b = "client_on ([] :: (exn + response) list)"
  define a1 where "a1 = snd (make_request_body scripted ''post'' (base_url ?a @ ''/message-list'') ?L ?a)"
  define b1 where "b1 = snd (make_request_body scripted ''post'' (base_url ?b @ ''/message-list'') ?L ?b)"
  have ta: "xsrf_token a1 = Some ''token''"
    by (simp add: a1_def inbox_response_def world_simps)
  have la: "get_message_list scripted (Suc 0) ''a.b@gmail.com'' ?a = Some (Inr [?ann, ?bob], a1)"
    by (simp add: get_message_list_def a1_def inbox_response_def inbox_def summary_def
        response_ok_def message_data_def dict_item_def world_simps)
  have lb: "get_message_list scripted (Suc 0) ''a.b@gmail.com'' ?b = Some (Inr [], b1)"
    by (simp add: get_message_list_def b1_def world_simps)
  have sa: "has_field ''subject'' ?bob"
    by (simp add: summary_def has_field_def)
  have fa: "find time_is_just_now [?ann, ?bob] = Some ?bob"
    by (simp add: summary_def time_is_just_now_def)
  have ca: "forget ?bob a1 = Some (Inr (), a1\<lparr>xsrf_token := None\<rparr>)"
    by (simp add: forget_def)
  have cb: "forget (JObj []) b1 = Some (Inr (), b1\<lparr>xsrf_token := None\<rparr>)"
    by (simp add: forget_def)
  from get_new_message_first_just_now
    [OF la, where m = ?bob and f = forget and ?s2.0 = "a1\<lparr>xsrf_token := None\<rparr>"] fa sa ca
  have A: "get_new_message scripted (Suc 0) ''a.b@gmail.com'' None ?a = Some (Inr ?bob, a1)"
    and B: "get_new_message scripted (Suc 0) ''a.b@gmail.com'' (Some forget) ?a
      = Some (Inr ?bob, a1\<lparr>xsrf_token := None\<rparr>)"
    by blast+
  have fb: "find time_is_just_now [] = None" by simp
  from get_new_message_first_just_now
    [OF lb, where f = forget and ?s2.0 = "b1\<lparr>xsrf_token := None\<rparr>"] fb cb
  have C: "get_new_message scripted (Suc 0) ''a.b@gmail.com'' (Some forget) ?b
      = Some (Inr (JObj []), b1\<lparr>xsrf_token := None\<rparr>)"
    by blast
  from A B C ta show ?thesis by simp
qed

text \<open>
  Claim C4 as stated fails: \<^verbatim>\<open>get_message_list\<close> returns the one entry of the listing
  below, whose time is \<open>Just Now\<close> and which has no \<open>subject\<close> field.  The log line raises
  \<^verbatim>\<open>KeyError\<close> before the callback runs (the client still has its token), and
  \<^verbatim>\<open>get_new_message\<close> raises instead of returning the entry.
\<close>

theorem get_new_message_missing_subject_counterexample:
  "map_option fst (get_message_list scripted (Suc 0) ''a.b@gmail.com''
      (client_on [Inr (answer_json (JObj [(''messageData'', JArr
         [JObj [(''messageID'', JStr ''Mw==''), (''from'', JStr ''Bob <bob@example.org>''),
                (''time'', JStr ''Just Now'')]])]))]))
   = Some (Inr [JObj [(''messageID'', JStr ''Mw==''), (''from'', JStr ''Bob <bob@example.org>''),
                      (''time'', JStr ''Just Now'')]])
   \<and> map_option (apsnd xsrf_token)
      (get_new_message scripted (Suc 0) ''a.b@gmail.com'' (Some forget)
         (client_on [Inr (answer_json (JObj [(''messageData'', JArr
            [JObj [(''messageID'', JStr ''Mw==''), (''from'', JStr ''Bob <bob@example.org>''),
                   (''time'', JStr ''Just Now'')]])]))]))
   = Some (Inl (KeyError ''subject''), Some ''token'')"
  by (simp add: get_new_message_def get_message_list_def message_data_def response_ok_def
      dict_item_def world_simps)

section \<open>Proofs: the body of a parsed message\<close>

lemma occurs_Cons: "occurs sub s \<Longrightarrow> occurs sub (c # s)"
proof -
  assume "occurs sub s"
  then obtain pre post where "s = pre @ sub @ post" by (auto simp: occurs_def)
  then have "c # s = (c # pre) @ sub @ post" by simp
  then show ?thesis unfolding occurs_def by blast
qed

lemma occurs_prefix: "prefix sub s \<Longrightarrow> occurs sub s"
proof -
  assume "prefix sub s"
  then obtain zs where "s = sub @ zs" by (auto simp: prefix_def)
  then have "s = [] @ sub @ zs" by simp
  then show ?thesis unfolding occurs_def by blast
qed

lemma no_early_start:
  assumes "sep \<noteq> []" and "\<not> occurs sep ((p # ps) @ butlast sep)"
  shows "\<not> startswith sep ((p # ps) @ sep @ post)"
proof
  assume "startswith sep ((p # ps) @ sep @ post)"
  then have 1: "prefix sep ((p # ps) @ sep @ post)" by (simp add: startswith_prefix)
  from assms(1) have "sep = butlast sep @ [last sep]" by simp
  then have "(p # ps) @ sep @ post = ((p # ps) @ butlast sep) @ (last sep # post)"
    by (metis append.assoc append_Cons append_Nil)
  then have 2: "prefix ((p # ps) @ butlast sep) ((p # ps) @ sep @ post)"
    by (metis prefixI)
  from assms(1) have 3: "length sep \<le> length ((p # ps) @ butlast sep)"
    by (cases sep) auto
  from prefix_length_prefix [OF 1 2 3] have "occurs sep ((p # ps) @ butlast sep)"
    by (rule occurs_prefix)
  with assms(2) show False by contradiction
qed

lemma py_split1_first:
  assumes "sep \<noteq> []" and "\<not> occurs sep (pre @ butlast sep)"
  shows "py_split1 sep (pre @ sep @ post) = [pre, post]"
  using assms(2)
proof (induction pre)
  case Nil
  from assms(1) obtain c cs where sep: "sep = c # cs" by (cases sep) auto
  have "startswith sep (sep @ post)" by (simp add: startswith_iff)
  then show ?case using sep by simp
next
  case (Cons p ps)
  from Cons.prems have "\<not> occurs sep (ps @ butlast sep)"
    using occurs_Cons [of sep "ps @ butlast sep" p] by auto
  then have ih: "py_split1 sep (ps @ sep @ post) = [ps, post]" by (rule Cons.IH)
  from no_early_start [OF assms(1) Cons.prems]
  have "\<not> startswith sep (p # ps @ sep @ post)" by simp
  with ih show ?case by simp
qed

lemma divider_nonempty: "divider \<noteq> []"
  by (simp add: divider_def)

lemma body_of_after_first:
  assumes "content = pre @ divider @ post" and "\<not> occurs divider (pre @ butlast divider)"
  shows "body_of content = py_strip post"
proof -
  from assms(1) have "occurs divider content" unfolding occurs_def by blast
  then have "py_in divider content" by (simp add: py_in_iff_occurs)
  moreover have "py_split1 divider content = [pre, post]"
    unfolding assms(1) using divider_nonempty assms(2) by (rule py_split1_first)
  ultimately show ?thesis by (simp add: body_of_def)
qed

lemma body_of_absent:
  assumes "\<not> occurs divider content"
  shows "body_of content = []"
  using assms by (simp add: body_of_def py_in_iff_occurs)

text \<open>\<^verbatim>\<open>strip\<close> trims, and what it returns is the only trimmed form of its argument.\<close>

lemma dropWhile_nonspace_hd:
  "dropWhile isspace s \<noteq> [] \<Longrightarrow> \<not> isspace (hd (dropWhile isspace s))"
  by (metis hd_dropWhile)

lemma py_strip_trimmed: "trimmed s (py_strip s)"
proof -
  define l where "l = takeWhile isspace s"
  define m where "m = dropWhile isspace s"
  define r where "r = takeWhile isspace (rev m)"
  define t where "t = dropWhile isspace (rev m)"
  have s: "s = l @ m" by (simp add: l_def m_def)
  have "rev m = r @ t" by (simp add: r_def t_def)
  then have m: "m = rev t @ rev r" by (metis rev_append rev_rev_ident)
  have strip: "py_strip s = rev t" by (simp add: py_strip_def t_def m_def)
  have ll: "list_all isspace l"
    unfolding l_def list_all_iff by (metis set_takeWhileD)
  have rr: "list_all isspace (rev r)"
    unfolding r_def list_all_iff by (metis set_rev set_takeWhileD)
  have ends: "rev t = [] \<or> (\<not> isspace (hd (rev t)) \<and> \<not> isspace (last (rev t)))"
  proof (cases "t = []")
    case True
    then show ?thesis by simp
  next
    case False
    then have "\<not> isspace (hd t)" unfolding t_def by (rule dropWhile_nonspace_hd)
    then have a: "\<not> isspace (last (rev t))" using False by (simp add: last_rev)
    from False have "rev t \<noteq> []" by simp
    then have "hd (rev t) = hd m" using m by simp
    moreover from False m have "m \<noteq> []" by simp
    then have "\<not> isspace (hd m)" unfolding m_def by (rule dropWhile_nonspace_hd)
    ultimately show ?thesis using a by simp
  qed
  have "s = l @ rev t @ rev r" using s m by simp
  with ll rr ends show ?thesis unfolding trimmed_def strip by blast
qed

lemma trimmed_unique:
  assumes "trimmed s t"
  shows "t = py_strip s"
proof -
  from assms obtain l r where s: "s = l @ t @ r" and l: "list_all isspace l"
    and r: "list_all isspace r"
    and t: "t = [] \<or> (\<not> isspace (hd t) \<and> \<not> isspace (last t))"
    unfolding trimmed_def by blast
  have dl: "dropWhile isspace (l @ ys) = dropWhile isspace ys" for ys
    using l by (intro dropWhile_append2) (simp add: list_all_iff)
  have dr: "dropWhile isspace (rev r @ ys) = dropWhile isspace ys" for ys
    using r by (intro dropWhile_append2) (simp add: list_all_iff)
  show ?thesis
  proof (cases "t = []")
    case True
    from r have "dropWhile isspace r = []" by (simp add: list_all_iff)
    with True s dl [of r] have d: "dropWhile isspace s = []" by simp
    show ?thesis unfolding py_strip_def d using True by simp
  next
    case False
    with t have h: "\<not> isspace (hd t)" and e: "\<not> isspace (last t)" by blast+
    from False h have "dropWhile isspace (t @ r) = t @ r" by (cases t) auto
    with s dl have 1: "dropWhile isspace s = t @ r" by simp
    from False e have "dropWhile isspace (rev t) = rev t"
      by (cases "rev t") (auto simp: last_rev [symmetric] hd_rev)
    with dr have "dropWhile isspace (rev (t @ r)) = rev t" by simp
    with 1 show ?thesis by (simp add: py_strip_def)
  qed
qed

lemma parse_email_content_body:
  assumes "parse_email_content X content = Inr details"
  shows "map_of details ''body'' = Some (body_of content)"
  using assms by (auto simp: parse_email_content_def Let_def split: sum.splits)

lemma parse_email_content_labels:
  assumes "soup_find_id X content ''subject-header'' = Some h"
    and "find_all X h ''b'' = bs" and "3 \<le> length bs"
    and "next_sibling_strip X (bs ! 0) = Inr sender"
    and "next_sibling_strip X (bs ! 1) = Inr subject"
    and "next_sibling_strip X (bs ! 2) = Inr time"
  shows "parse_email_content X content =
         Inr [(''from'', sender), (''subject'', subject), (''time'', time),
              (''body'', body_of content)]"
proof -
  from assms(3) have "0 < length bs" "1 < length bs" "2 < length bs" by arith+
  then have "list_item bs 0 = Inr (bs ! 0)" "list_item bs 1 = Inr (bs ! 1)"
    "list_item bs 2 = Inr (bs ! 2)"
    unfolding list_item_def by simp_all
  with assms show ?thesis
    by (simp add: parse_email_content_def label_value_def)
qed

lemma py_strip_Hello: "py_strip ''Hello'' = ''Hello''"
  by (simp add: py_strip_def isspace_def)

text \<open>
  Claim C5.  When the header of \<open>content\<close> is found and has three \<open>b\<close> elements followed by
  text, \<^verbatim>\<open>_parse_email_content\<close> returns a record.  Whenever it returns a record, the
  \<open>body\<close> of the record is the text after the first occurrence of the divider
  \<^verbatim>\<open><hr /></div></div>\<close> without its leading and trailing whitespace
  (\<open>content = pre @ divider @ post\<close> with no occurrence of the divider that starts inside
  \<open>pre\<close>), and the empty string when the divider does not occur.  With \<open>Hello\<close> after the
  divider the body is \<open>Hello\<close>.
\<close>

theorem parse_email_content_body_after_divider:
  "(soup_find_id X content ''subject-header'' = Some h
     \<and> find_all X h ''b'' = bs \<and> 3 \<le> length bs
     \<and> next_sibling_strip X (bs ! 0) = Inr sender
     \<and> next_sibling_strip X (bs ! 1) = Inr subject
     \<and> next_sibling_strip X (bs ! 2) = Inr time
     \<longrightarrow> (\<exists>body. parse_email_content X content =
            Inr [(''from'', sender), (''subject'', subject), (''time'', time), (''body'', body)]))
   \<and> (parse_email_content X content = Inr details \<longrightarrow>
       (\<exists>body. map_of details ''body'' = Some body
          \<and> (content = pre @ divider @ post \<and> \<not> occurs divider (pre @ butlast divider) \<longrightarrow>
               trimmed post body)
          \<and> (\<not> occurs divider content \<longrightarrow> body = [])
          \<and> (content = pre @ divider @ ''Hello'' \<and> \<not> occurs divider (pre @ butlast divider) \<longrightarrow>
               body = ''Hello'')))
   \<and> divider = ''<hr /></div></div>''"
proof (intro conjI impI)
  assume "soup_find_id X content ''subject-header'' = Some h
     \<and> find_all X h ''b'' = bs \<and> 3 \<le> length bs
     \<and> next_sibling_strip X (bs ! 0) = Inr sender
     \<and> next_sibling_strip X (bs ! 1) = Inr subject
     \<and> next_sibling_strip X (bs ! 2) = Inr time"
  then have "parse_email_content X content =
      Inr [(''from'', sender), (''subject'', subject), (''time'', time),
           (''body'', body_of content)]"
    by (intro parse_email_content_labels) blast+
  then show "\<exists>body. parse_email_content X content =
      Inr [(''from'', sender), (''subject'', subject), (''time'', time), (''body'', body)]"
    by blast
next
  assume p: "parse_email_content X content = Inr details"
  have 1: "map_of details ''body'' = Some (body_of content)"
    using p by (rule parse_email_content_body)
  have 2: "content = pre @ divider @ post \<and> \<not> occurs divider (pre @ butlast divider) \<longrightarrow>
      trimmed post (body_of content)"
    using body_of_after_first [of content pre post] py_strip_trimmed [of post] by auto
  have 3: "\<not> occurs divider content \<longrightarrow> body_of content = []"
    using body_of_absent by blast
  have 4: "content = pre @ divider @ ''Hello'' \<and> \<not> occurs divider (pre @ butlast divider) \<longrightarrow>
      body_of content = ''Hello''"
    using body_of_after_first [of content pre "''Hello''"] py_strip_Hello by auto
  from 1 2 3 4 show "\<exists>body. map_of details ''body'' = Some body
      \<and> (content = pre @ divider @ post \<and> \<not> occurs divider (pre @ butlast divider) \<longrightarrow>
           trimmed post body)
      \<and> (\<not> occurs divider content \<longrightarrow> body = [])
      \<and> (content = pre @ divider @ ''Hello'' \<and> \<not> occurs divider (pre @ butlast divider) \<longrightarrow>
           body = ''Hello'')"
    by blast
next
  show "divider = ''<hr /></div></div>''" by (simp add: divider_def)
qed

text \<open>On the full page, whose text after the divider is \<open>Hello\<close> between two spaces, and on
  the page without the divider.\<close>

theorem parse_email_content_body_after_divider_witness:
  "parse_email_content scripted page_full =
     Inr [(''from'', ''sender@example.org''), (''subject'', ''Greetings''),
          (''time'', ''Just Now''), (''body'', ''Hello'')]
   \<and> parse_email_content scripted page_no_divider =
     Inr [(''from'', ''sender@example.org''), (''subject'', ''Greetings''),
          (''time'', ''Just Now''), (''body'', [])]"
proof -
  let ?pre = "''<div id=subject-header><b>From: </b>sender@example.org<br/><b>Subject: </b>Greetings<br/><b>Time: </b>Just Now''"
  let ?post = "'' Hello ''"
  have ne: "page_two_labels \<noteq> page_no_divider" "page_full \<noteq> page_no_divider"
    by (simp_all add: page_full_def page_two_labels_def page_no_divider_def)
  have hf: "soup_find_id scripted page_full ''subject-header'' = Some 0"
    by (simp add: scripted_def known_find_id_def)
  have hn: "soup_find_id scripted page_no_divider ''subject-header'' = Some 20"
    using ne by (simp add: scripted_def known_find_id_def)
  have bf: "find_all scripted 0 ''b'' = [1, 2, 3]"
    and bn: "find_all scripted 20 ''b'' = [21, 22, 23]"
    by (simp_all add: scripted_def known_find_all_def)
  have lf: "next_sibling_strip scripted ([1, 2, 3] ! 0) = Inr ''sender@example.org''"
    "next_sibling_strip scripted ([1, 2, 3] ! 1) = Inr ''Greetings''"
    "next_sibling_strip scripted ([1, 2, 3] ! 2) = Inr ''Just Now''"
    by (simp_all add: scripted_def known_next_sibling_strip_def)
  have ln: "next_sibling_strip scripted ([21, 22, 23] ! 0) = Inr ''sender@example.org''"
    "next_sibling_strip scripted ([21, 22, 23] ! 1) = Inr ''Greetings''"
    "next_sibling_strip scripted ([21, 22, 23] ! 2) = Inr ''Just Now''"
    by (simp_all add: scripted_def known_next_sibling_strip_def)
  have len: "3 \<le> length [1, 2, 3 :: nat]" "3 \<le> length [21, 22, 23 :: nat]"
    by simp_all
  from parse_email_content_body_after_divider
    [where X = scripted and content = page_full and h = 0 and bs = "[1, 2, 3]"
      and sender = "''sender@example.org''" and subject = "''Greetings''"
      and time = "''Just Now''"] hf bf len lf
  obtain body where pf: "parse_email_content scripted page_full =
      Inr [(''from'', ''sender@example.org''), (''subject'', ''Greetings''),
           (''time'', ''Just Now''), (''body'', body)]"
    by blast
  have eq: "page_full = ?pre @ divider @ ?post"
    by (simp add: page_full_def divider_def)
  have "\<not> py_in divider (?pre @ butlast divider)" by (simp add: divider_def)
  then have first: "\<not> occurs divider (?pre @ butlast divider)" by (simp add: py_in_iff_occurs)
  from parse_email_content_body_after_divider
    [where X = scripted and content = page_full and pre = ?pre and post = ?post
      and details = "[(''from'', ''sender@example.org''), (''subject'', ''Greetings''),
           (''time'', ''Just Now''), (''body'', body)]"] pf eq first
  have "trimmed ?post body" by auto
  then have "body = py_strip ?post" by (rule trimmed_unique)
  then have body: "body = ''Hello''" by (simp add: py_strip_def isspace_def)
  from parse_email_content_body_after_divider
    [where X = scripted and content = page_no_divider and h = 20 and bs = "[21, 22, 23]"
      and sender = "''sender@example.org''" and subject = "''Greetings''"
      and time = "''Just Now''"] hn bn len ln
  obtain body' where pn: "parse_email_content scripted page_no_divider =
      Inr [(''from'', ''sender@example.org''), (''subject'', ''Greetings''),
           (''time'', ''Just Now''), (''body'', body')]"
    by blast
  have "\<not> py_in divider page_no_divider" by (simp add: divider_def page_no_divider_def)
  then have absent: "\<not> occurs divider page_no_divider" by (simp add: py_in_iff_occurs)
  from parse_email_content_body_after_divider
    [where X = scripted and content = page_no_divider
      and details = "[(''from'', ''sender@example.org''), (''subject'', ''Greetings''),
           (''time'', ''Just Now''), (''body'', body')]"] pn absent
  have body': "body' = []" by auto
  from pf pn body body' show ?thesis by simp
qed

section \<open>Proofs: parse faults\<close>

lemma label_value_no_header: "label_value X None i = Inl AttributeError"
  by (simp add: label_value_def)

lemma label_value_out_of_range:
  "length (find_all X h ''b'') \<le> i \<Longrightarrow> label_value X (Some h) i = Inl IndexError"
  by (simp add: label_value_def list_item_def)

lemma parse_email_content_faults:
  assumes "soup_find_id X content ''subject-header'' = None
     \<or> (\<exists>h. soup_find_id X content ''subject-header'' = Some h \<and> length (find_all X h ''b'') < 3)"
  shows "\<exists>e. parse_email_content X content = Inl e"
proof -
  let ?hd = "soup_find_id X content ''subject-header''"
  from assms have "\<exists>e. label_value X ?hd 2 = Inl e"
    by (auto simp: label_value_no_header label_value_out_of_range)
  then obtain e2 where e2: "label_value X ?hd 2 = Inl e2" ..
  show ?thesis
  proof (cases "label_value X ?hd 0")
    case (Inl e)
    then show ?thesis by (simp add: parse_email_content_def)
  next
    case a: (Inr v0)
    show ?thesis
    proof (cases "label_value X ?hd 1")
      case (Inl e)
      with a show ?thesis by (simp add: parse_email_content_def)
    next
      case (Inr v1)
      with a e2 show ?thesis by (simp add: parse_email_content_def)
    qed
  qed
qed

text \<open>
  Claim C8.  When the request of \<^verbatim>\<open>get_email_content\<close> succeeds and the HTML of the
  response has no element with id \<open>subject-header\<close>, or fewer than three \<open>b\<close> elements under
  it, \<^verbatim>\<open>_parse_email_content\<close> raises, and \<^verbatim>\<open>get_email_content\<close> raises the same exception
  to its caller instead of returning a record.
\<close>

theorem get_email_content_parse_fault_propagates:
  assumes "make_request X k ''post'' (base_url s @ ''/message-list'')
             (Some (JObj [(''email'', JStr email), (''messageID'', JStr message_id)])) s
           = Some (Inr (Some r), s')"
    and "soup_find_id X (body_text r) ''subject-header'' = None
     \<or> (\<exists>h. soup_find_id X (body_text r) ''subject-header'' = Some h
           \<and> length (find_all X h ''b'') < 3)"
  shows "\<exists>e. parse_email_content X (body_text r) = Inl e
           \<and> get_email_content X k email message_id s = Some (Inl e, s')"
proof -
  from assms(2) obtain e where e: "parse_email_content X (body_text r) = Inl e"
    using parse_email_content_faults by blast
  from assms(1) have "response_ok r" by (rule make_request_response_ok)
  with assms(1) e have "get_email_content X k email message_id s = Some (Inl e, s')"
    by (simp add: get_email_content_def)
  with e show ?thesis by blast
qed

text \<open>A page without the header, and the page whose header holds two labels only.\<close>

theorem get_email_content_parse_fault_propagates_witness:
  "observe (get_email_content scripted (Suc 0) ''a.b@gmail.com'' ''MQ==''
      (client_on [Inr (answer 200 ''OK'' ''<p>no such message</p>'')]))
   = Some (Inl AttributeError, 0, [POST])
   \<and> observe (get_email_content scripted (Suc 0) ''a.b@gmail.com'' ''MQ==''
      (client_on [Inr (answer 200 ''OK'' page_two_labels)]))
   = Some (Inl IndexError, 0, [POST])"
proof -
  let ?ra = "answer 200 ''OK'' ''<p>no such message</p>''"
  let ?rb = "answer 200 ''OK'' page_two_labels"
  let ?a = "client_on [Inr ?ra :: exn + response]"
  let ?b = "client_on [Inr ?rb :: exn + response]"
  let ?D = "Some (JObj [(''email'', JStr ''a.b@gmail.com''), (''messageID'', JStr ''MQ=='')])"
  define a1 where "a1 = snd (make_request_body scripted ''post'' (base_url ?a @ ''/message-list'') ?D ?a)"
  define b1 where "b1 = snd (make_request_body scripted ''post'' (base_url ?b @ ''/message-list'') ?D ?b)"
  have oa: "init_calls a1 = 0 \<and> map verb (sent a1) = [POST]"
    and ob: "init_calls b1 = 0 \<and> map verb (sent b1) = [POST]"
    by (simp_all add: a1_def b1_def world_simps)
  have ra: "make_request scripted (Suc 0) ''post'' (base_url ?a @ ''/message-list'') ?D ?a
      = Some (Inr (Some ?ra), a1)"
    by (simp add: a1_def world_simps)
  have rb: "make_request scripted (Suc 0) ''post'' (base_url ?b @ ''/message-list'') ?D ?b
      = Some (Inr (Some ?rb), b1)"
    by (simp add: b1_def world_simps)
  have ne: "page_two_labels \<noteq> page_full"
    by (simp add: page_full_def page_two_labels_def)
  have ha: "soup_find_id scripted (body_text ?ra) ''subject-header'' = None"
    by (simp add: scripted_def answer_def known_find_id_def page_full_def page_two_labels_def
        page_no_divider_def)
  have hb: "soup_find_id scripted (body_text ?rb) ''subject-header'' = Some 10"
    using ne by (simp add: scripted_def answer_def known_find_id_def)
  have lb: "find_all scripted 10 ''b'' = [11, 12]"
    by (simp add: scripted_def known_find_all_def)
  from hb lb have hb': "\<exists>h. soup_find_id scripted (body_text ?rb) ''subject-header'' = Some h
      \<and> length (find_all scripted h ''b'') < 3"
    by simp
  have pa: "parse_email_content scripted (body_text ?ra) = Inl AttributeError"
    using ha by (simp add: parse_email_content_def label_value_def)
  have pb: "parse_email_content scripted (body_text ?rb) = Inl IndexError"
    using hb lb
    by (simp add: parse_email_content_def label_value_def list_item_def scripted_def
        known_next_sibling_strip_def)
  from get_email_content_parse_fault_propagates [OF ra] ha pa
  have "get_email_content scripted (Suc 0) ''a.b@gmail.com'' ''MQ=='' ?a
      = Some (Inl AttributeError, a1)"
    by auto
  with oa have A: "observe (get_email_content scripted (Suc 0) ''a.b@gmail.com'' ''MQ=='' ?a)
      = Some (Inl AttributeError, 0, [POST])"
    by (simp add: observe_def)
  from get_email_content_parse_fault_propagates [OF rb] hb' pb
  have "get_email_content scripted (Suc 0) ''a.b@gmail.com'' ''MQ=='' ?b
      = Some (Inl IndexError, b1)"
    by auto
  with ob have B: "observe (get_email_content scripted (Suc 0) ''a.b@gmail.com'' ''MQ=='' ?b)
      = Some (Inl IndexError, 0, [POST])"
    by (simp add: observe_def)
  from A B show ?thesis by blast
qed


end